theory Spec2Isabelle
  imports Complex_Main
begin

section \<open>Data model\<close>

text \<open>
  The pipeline of \<^verbatim>\<open>src/models/recommendation_pipeline.py\<close> works on Spark data
  frames. A data frame is modelled as the list of its rows, in some physical order, and a
  row as a record with one field per column. Spark fixes no order among the rows of a
  frame; every theorem below is stated for an arbitrary input list, hence for every
  physical order the rows can have.

  Text that is only compared (brand, colour, category) is a \<open>string\<close>. Keyword text is
  a list of Unicode code points, because the normalisation of keywords works on code
  points.
\<close>

type_synonym utext = "nat list"

text \<open>
  A row of \<^verbatim>\<open>product_rankings.csv\<close>: one observation of a product's rank on a date, typed
  as in the data model of the specification (an identifier, a time, an integer).
\<close>

record ranking_record =
  rk_productId :: nat
  rk_date :: int
  ranking :: int

text \<open>A row of \<^verbatim>\<open>self.product_rankings\<close> once \<^verbatim>\<open>ranking\<close> has been dropped (line 42).\<close>

record labelled_record =
  lb_productId :: nat
  lb_date :: int
  lb_recommend :: nat

text \<open>
  A row of \<^verbatim>\<open>product_keywords.csv\<close>. The four columns that line 48 fills can be
  null (\<open>None\<close>); the other columns are taken as the data model of the specification
  types them.
\<close>

record keyword_record =
  kw_productId :: nat
  kw_brandName :: string
  kw_colors :: "string option"
  kw_keywords :: "utext option"
  kw_rating :: "real option"
  kw_ratingCount :: "int option"
  kw_price :: real
  kw_discountRate :: real
  kw_conversionRate :: real
  kw_trending :: real
  kw_totalSales :: real
  kw_views :: real
  kw_likes :: real
  kw_category :: string

text \<open>A row of \<^verbatim>\<open>self.joined_data\<close> after the join and \<^verbatim>\<open>fillna\<close> (lines 45 to 48).\<close>

record joined_record =
  productId :: nat
  date :: int
  recommend :: nat
  brandName :: string
  colors :: string
  keywords_string :: utext
  rating :: real
  ratingCount :: int
  price :: real
  discountRate :: real
  conversionRate :: real
  trending :: real
  totalSales :: real
  views :: real
  likes :: real
  category :: string

text \<open>The columns added by the encoder pipeline (lines 51 to 58).\<close>

record encoded_record = joined_record +
  brand_index :: nat
  colors_index :: nat
  brand_ohe :: "real list"
  colors_ohe :: "real list"

text \<open>
  The column \<^verbatim>\<open>keywords\<close> is the field \<open>keywords_string\<close> of a joined row. Line 61
  overwrites the column with its split: the record keeps the array in \<open>keywords_array\<close>,
  and the string is not read again.
\<close>

record split_record = encoded_record +
  keywords_array :: "utext list"

text \<open>The columns added by \<^verbatim>\<open>vectorize_keywords\<close> (lines 86 to 94).\<close>

record vectorized_record = split_record +
  filtered_keywords :: "utext list"
  keyword_features :: "real list"

text \<open>The exceptions a run can raise.\<close>

datatype py_error =
  UnseenLabel string
  | EmptyVocabulary
  | EmptyDataset
  | AttributeError string
  | TypeError string

section \<open>preprocess\_data: deduplication and labelling (lines 26 to 42)\<close>

text \<open>
  \<^verbatim>\<open>Window.partitionBy("productId").orderBy(desc("date"))\<close> with \<^verbatim>\<open>row_number()\<close>:
  the rows of each product, by descending date, numbered from 1. Among rows of one product
  with equal dates Spark numbers in an unspecified order; the model keeps the order of the
  input list (\<open>sort_key\<close> is stable), which is arbitrary.
\<close>

definition row_number_over_window :: "ranking_record list \<Rightarrow> (ranking_record \<times> nat) list" where
  "row_number_over_window rs =
     concat (map (\<lambda>p. zip (sort_key (\<lambda>r. - rk_date r) (filter (\<lambda>r. rk_productId r = p) rs))
                          [1 ..< Suc (length rs)])
                 (remdups (map rk_productId rs)))"

text \<open>Lines 29 to 33: keep the rows numbered 1 and drop the temporary column.\<close>

definition dedup_rankings :: "ranking_record list \<Rightarrow> ranking_record list" where
  "dedup_rankings rs =
     map fst (filter (\<lambda>(r, row_number). row_number = 1) (row_number_over_window rs))"

text \<open>Line 38: \<^verbatim>\<open>when(col("ranking") <= 150, 1).otherwise(0)\<close>.\<close>

definition when_ranking :: "int \<Rightarrow> nat" where
  "when_ranking k = (if k \<le> 150 then 1 else 0)"

text \<open>Lines 36 to 39: the column \<^verbatim>\<open>recommend\<close> is added beside \<^verbatim>\<open>ranking\<close>.\<close>

definition with_recommend :: "ranking_record list \<Rightarrow> (ranking_record \<times> nat) list" where
  "with_recommend rs = map (\<lambda>r. (r, when_ranking (ranking r))) rs"

text \<open>Line 42: \<^verbatim>\<open>drop("ranking")\<close>.\<close>

definition drop_ranking :: "(ranking_record \<times> nat) list \<Rightarrow> labelled_record list" where
  "drop_ranking rs =
     map (\<lambda>(r, l). \<lparr>lb_productId = rk_productId r, lb_date = rk_date r, lb_recommend = l\<rparr>) rs"

text \<open>The value of \<^verbatim>\<open>self.product_rankings\<close> after line 42.\<close>

definition product_rankings_labelled :: "ranking_record list \<Rightarrow> labelled_record list" where
  "product_rankings_labelled rs = drop_ranking (with_recommend (dedup_rankings rs))"

section \<open>preprocess\_data: join, missing values, encoders (lines 45 to 61)\<close>

text \<open>Line 45: the inner join on \<^verbatim>\<open>productId\<close>, every matching pair of rows.\<close>

definition join_on_productId ::
  "labelled_record list \<Rightarrow> keyword_record list \<Rightarrow> (labelled_record \<times> keyword_record) list" where
  "join_on_productId ls ks =
     concat (map (\<lambda>l. map (\<lambda>k. (l, k)) (filter (\<lambda>k. kw_productId k = lb_productId l) ks)) ls)"

text \<open>
  Line 48: \<^verbatim>\<open>fillna({"colors": "unknown", "keywords": "", "rating": 0, "ratingCount": 0})\<close>.
\<close>

definition fillna :: "labelled_record \<times> keyword_record \<Rightarrow> joined_record" where
  "fillna lk = (case lk of (l, k) \<Rightarrow>
     \<lparr>productId = lb_productId l, date = lb_date l, recommend = lb_recommend l,
      brandName = kw_brandName k,
      colors = (case kw_colors k of None \<Rightarrow> ''unknown'' | Some c \<Rightarrow> c),
      keywords_string = (case kw_keywords k of None \<Rightarrow> [] | Some s \<Rightarrow> s),
      rating = (case kw_rating k of None \<Rightarrow> 0 | Some x \<Rightarrow> x),
      ratingCount = (case kw_ratingCount k of None \<Rightarrow> 0 | Some n \<Rightarrow> n),
      price = kw_price k, discountRate = kw_discountRate k,
      conversionRate = kw_conversionRate k, trending = kw_trending k,
      totalSales = kw_totalSales k, views = kw_views k, likes = kw_likes k,
      category = kw_category k\<rparr>)"

text \<open>
  The distinct values of a column by descending number of occurrences: the order in which
  \<^verbatim>\<open>StringIndexer\<close> (\<^verbatim>\<open>stringOrderType\<close> at its default, \<^verbatim>\<open>frequencyDesc\<close>) numbers labels and
  in which \<^verbatim>\<open>CountVectorizer\<close> numbers terms. The order among equally frequent values
  differs between Spark versions; the model takes the order \<open>remdups\<close> leaves them in.
\<close>

definition frequencyDesc :: "'a list \<Rightarrow> 'a list" where
  "frequencyDesc xs = sort_key (\<lambda>v. - int (count_list xs v)) (remdups xs)"

definition StringIndexer_fit :: "string list \<Rightarrow> string list" where
  "StringIndexer_fit col = frequencyDesc col"

fun index_of :: "'a \<Rightarrow> 'a list \<Rightarrow> nat option" where
  "index_of v [] = None"
| "index_of v (l # ls) = (if l = v then Some 0 else map_option Suc (index_of v ls))"

text \<open>\<^verbatim>\<open>handleInvalid\<close> is at its default, \<^verbatim>\<open>"error"\<close>: a value without a label raises.\<close>

definition StringIndexer_transform :: "string list \<Rightarrow> string \<Rightarrow> py_error + nat" where
  "StringIndexer_transform labels v =
     (case index_of v labels of None \<Rightarrow> Inl (UnseenLabel v) | Some i \<Rightarrow> Inr i)"

text \<open>
  \<^verbatim>\<open>OneHotEncoder(inputCol, outputCol)\<close> leaves \<^verbatim>\<open>dropLast\<close> at its default, true: for
  \<open>numCategories\<close> labels the vector has \<open>numCategories - 1\<close> components, and the last
  index is encoded as the vector of zeros.
\<close>

definition OneHotEncoder_transform :: "nat \<Rightarrow> nat \<Rightarrow> real list" where
  "OneHotEncoder_transform numCategories i =
     map (\<lambda>j. if j = i then 1 else 0) [0 ..< numCategories - 1]"

text \<open>Apply a step that can raise to every row; the first exception ends the run.\<close>

fun traverse :: "('a \<Rightarrow> 'e + 'b) \<Rightarrow> 'a list \<Rightarrow> 'e + 'b list" where
  "traverse f [] = Inr []"
| "traverse f (x # xs) =
     (case f x of Inl e \<Rightarrow> Inl e
      | Inr y \<Rightarrow> (case traverse f xs of Inl e \<Rightarrow> Inl e | Inr ys \<Rightarrow> Inr (y # ys)))"

definition encode_row ::
  "string list \<Rightarrow> string list \<Rightarrow> joined_record \<Rightarrow> py_error + encoded_record" where
  "encode_row brand_labels colors_labels r =
     (case StringIndexer_transform brand_labels (brandName r) of Inl e \<Rightarrow> Inl e
      | Inr bi \<Rightarrow>
     (case StringIndexer_transform colors_labels (colors r) of Inl e \<Rightarrow> Inl e
      | Inr ci \<Rightarrow>
        Inr (joined_record.extend r
              (encoded_record.fields bi ci
                 (OneHotEncoder_transform (length brand_labels) bi)
                 (OneHotEncoder_transform (length colors_labels) ci)))))"

text \<open>Lines 57 and 58: the pipeline is fit on the joined data and transforms the same data.\<close>

definition encoder_pipeline :: "joined_record list \<Rightarrow> py_error + encoded_record list" where
  "encoder_pipeline jd =
     traverse (encode_row (StringIndexer_fit (map brandName jd))
                          (StringIndexer_fit (map colors jd))) jd"

text \<open>
  Line 61: \<^verbatim>\<open>F.split(F.col("keywords"), ", ")\<close>, the pieces between occurrences of a comma
  (44) followed by a space (32), empty pieces kept.
\<close>

fun split_keywords :: "utext \<Rightarrow> utext \<Rightarrow> utext list" where
  "split_keywords cur [] = [cur]"
| "split_keywords cur [c] = [cur @ [c]]"
| "split_keywords cur (c # d # cs) =
     (if c = 44 \<and> d = 32 then cur # split_keywords [] cs
      else split_keywords (cur @ [c]) (d # cs))"

definition with_keywords_array :: "encoded_record \<Rightarrow> split_record" where
  "with_keywords_array r =
     encoded_record.extend r (split_record.fields (split_keywords [] (keywords_string r)))"

text \<open>The joined table before the encoders (lines 26 to 48).\<close>

definition joined_rows :: "ranking_record list \<Rightarrow> keyword_record list \<Rightarrow> joined_record list" where
  "joined_rows rs kws = map fillna (join_on_productId (product_rankings_labelled rs) kws)"

text \<open>Lines 50 to 61: the encoders and the split of the keywords, on the joined table.\<close>

definition encode_and_split :: "joined_record list \<Rightarrow> py_error + split_record list" where
  "encode_and_split jd =
     (case encoder_pipeline jd of
        Inl e \<Rightarrow> Inl e
      | Inr enc \<Rightarrow> Inr (map with_keywords_array enc))"

text \<open>The value of \<^verbatim>\<open>self.joined_data\<close> when \<^verbatim>\<open>preprocess_data\<close> returns.\<close>

definition preprocess_data ::
  "ranking_record list \<Rightarrow> keyword_record list \<Rightarrow> py_error + split_record list" where
  "preprocess_data rs kws = encode_and_split (joined_rows rs kws)"

section \<open>vectorize\_keywords (lines 63 to 94)\<close>

text \<open>
  \<^verbatim>\<open>lower\<close> on one code point. The capital letters A to Z (65 to 90) become a to z. Of all
  other code points only two have a lower case with a letter that line 70 keeps: the
  capital I with dot above (304) becomes i followed by a combining dot (775), and the
  Kelvin sign (8490) becomes k. Every other code point is kept as it is: where its lower
  case differs, both are outside the letters that line 70 keeps.
\<close>

definition lower_cp :: "nat \<Rightarrow> nat list" where
  "lower_cp c =
     (if 65 \<le> c \<and> c \<le> 90 then [c + 32]
      else if c = 304 then [105, 775]
      else if c = 8490 then [107]
      else [c])"

text \<open>
  The code points that \<^verbatim>\<open>regexp_replace(_, "[^\<dots>a-zA-Z]", "")\<close> keeps, where the dots stand
  for the range of Hangul syllables, 44032 to 55203.
\<close>

definition keep_cp :: "nat \<Rightarrow> bool" where
  "keep_cp c = ((44032 \<le> c \<and> c \<le> 55203) \<or> (97 \<le> c \<and> c \<le> 122) \<or> (65 \<le> c \<and> c \<le> 90))"

text \<open>Line 70.\<close>

definition clean_keyword :: "utext \<Rightarrow> utext" where
  "clean_keyword k = filter keep_cp (concat (map lower_cp k))"

text \<open>Lines 65 to 71: one cleaned keyword per element of every row's array.\<close>

definition keywords_cleaned :: "utext list list \<Rightarrow> utext list" where
  "keywords_cleaned col = map clean_keyword (concat col)"

text \<open>\<^verbatim>\<open>groupBy("keyword").count()\<close>.\<close>

definition groupBy_count :: "'a list \<Rightarrow> ('a \<times> nat) list" where
  "groupBy_count xs = map (\<lambda>k. (k, count_list xs k)) (remdups xs)"

text \<open>Lines 75 to 77: the groups by descending count.\<close>

definition keywords_by_count :: "utext list \<Rightarrow> (utext \<times> nat) list" where
  "keywords_by_count xs = sort_key (\<lambda>(k, c). - int c) (groupBy_count xs)"

text \<open>Lines 74 to 81, from the column \<^verbatim>\<open>keywords\<close> of the joined data.\<close>

definition top_keywords_list :: "utext list list \<Rightarrow> utext list" where
  "top_keywords_list col = map fst (take 100 (keywords_by_count (keywords_cleaned col)))"

text \<open>
  Lines 84 to 89: \<^verbatim>\<open>filter(keywords, x -> array_contains(array(\<dots>), x))\<close>. The array that
  is filtered is the column \<^verbatim>\<open>keywords\<close> of \<^verbatim>\<open>self.joined_data\<close>, the split of line 61.
\<close>

definition filter_keywords :: "utext list \<Rightarrow> utext list \<Rightarrow> utext list" where
  "filter_keywords top_keywords ks = filter (\<lambda>x. x \<in> set top_keywords) ks"

text \<open>
  \<^verbatim>\<open>CountVectorizer(inputCol, outputCol).fit\<close>: \<^verbatim>\<open>vocabSize\<close> is at its default 262144 and
  \<^verbatim>\<open>minDF\<close> at 1. Fitting raises when no term is left.
\<close>

definition CountVectorizer_fit :: "utext list list \<Rightarrow> py_error + utext list" where
  "CountVectorizer_fit docs =
     (let vocabulary = take 262144 (frequencyDesc (concat docs))
      in if vocabulary = [] then Inl EmptyVocabulary else Inr vocabulary)"

definition CountVectorizerModel_transform :: "utext list \<Rightarrow> utext list \<Rightarrow> real list" where
  "CountVectorizerModel_transform vocabulary doc = map (\<lambda>t. real (count_list doc t)) vocabulary"

text \<open>The value of \<^verbatim>\<open>self.vectorized_data\<close>.\<close>

definition vectorize_keywords :: "split_record list \<Rightarrow> py_error + vectorized_record list" where
  "vectorize_keywords jd =
     (let top_keywords = top_keywords_list (map keywords_array jd);
          filtered = map (\<lambda>r. (r, filter_keywords top_keywords (keywords_array r))) jd
      in case CountVectorizer_fit (map snd filtered) of
           Inl e \<Rightarrow> Inl e
         | Inr vocabulary \<Rightarrow>
             Inr (map (\<lambda>(r, f). split_record.extend r
                        (vectorized_record.fields f (CountVectorizerModel_transform vocabulary f)))
                      filtered))"

section \<open>train\_models (lines 96 to 122)\<close>

text \<open>Lines 99 and 100.\<close>

definition inputCols :: "string list" where
  "inputCols =
     [''brand_ohe'', ''colors_ohe'', ''keyword_features'', ''price'', ''discountRate'',
      ''conversionRate'', ''trending'', ''totalSales'', ''views'', ''likes'', ''rating'',
      ''ratingCount'']"

text \<open>\<^verbatim>\<open>VectorAssembler\<close>: the values of the input columns, in their order, in one vector.\<close>

definition VectorAssembler_transform :: "vectorized_record \<Rightarrow> real list" where
  "VectorAssembler_transform r =
     brand_ohe r @ colors_ohe r @ keyword_features r @
     [price r, discountRate r, conversionRate r, trending r, totalSales r, views r, likes r,
      rating r, real_of_int (ratingCount r)]"

text \<open>
  The random forest is used through its interface only. Growing the trees is a parameter
  of the model, \<open>learn\<close>: from the labelled feature vectors to a binary classifier. Spark's
  classifiers raise on an empty training set (``ML algorithm was given empty dataset'').
\<close>

type_synonym classifier = "real list \<Rightarrow> bool"
type_synonym learner = "(real list \<times> nat) list \<Rightarrow> classifier"

text \<open>Lines 97 to 106, \<^verbatim>\<open>train_model(data)\<close>.\<close>

definition train_model :: "learner \<Rightarrow> vectorized_record list \<Rightarrow> py_error + classifier" where
  "train_model learn data =
     (if data = [] then Inl EmptyDataset
      else Inr (learn (map (\<lambda>r. (VectorAssembler_transform r, recommend r)) data)))"

text \<open>\<^verbatim>\<open>model.transform\<close>: the column \<^verbatim>\<open>prediction\<close> of a row, 1 or 0.\<close>

definition model_transform :: "classifier \<Rightarrow> vectorized_record \<Rightarrow> nat" where
  "model_transform m r = (if m (VectorAssembler_transform r) then 1 else 0)"

text \<open>
  \<^verbatim>\<open>randomSplit([0.7, 0.3], seed)\<close>. The generator is a parameter, \<open>draw\<close>: the number in
  the unit interval drawn for the row at a position, under a seed. The first part holds
  the rows whose number is below 0.7 and the second part the rows from 0.7 up.
\<close>

definition randomSplit :: "(nat \<Rightarrow> nat \<Rightarrow> real) \<Rightarrow> nat \<Rightarrow> 'a list \<Rightarrow> 'a list \<times> 'a list" where
  "randomSplit draw seed rows =
     (let numbered = zip [0 ..< length rows] rows
      in (map snd (filter (\<lambda>(i, r). 0 \<le> draw seed i \<and> draw seed i < 7 / 10) numbered),
          map snd (filter (\<lambda>(i, r). 7 / 10 \<le> draw seed i \<and> draw seed i < 1) numbered)))"

text \<open>The attributes that \<^verbatim>\<open>train_models\<close> sets.\<close>

record trained =
  clothes_top_data_train :: "vectorized_record list"
  clothes_top_data_test :: "vectorized_record list"
  pants_data_train :: "vectorized_record list"
  pants_data_test :: "vectorized_record list"
  shoes_data_train :: "vectorized_record list"
  shoes_data_test :: "vectorized_record list"
  outers_data_train :: "vectorized_record list"
  outers_data_test :: "vectorized_record list"
  clothes_top_model :: classifier
  pants_model :: classifier
  shoes_model :: classifier
  outers_model :: classifier

definition train_models ::
  "learner \<Rightarrow> (nat \<Rightarrow> nat \<Rightarrow> real) \<Rightarrow> vectorized_record list \<Rightarrow> py_error + trained" where
  "train_models learn draw vd =
     (let clothes_top_data = filter (\<lambda>r. category r = ''clothes_top'') vd;
          pants_data = filter (\<lambda>r. category r = ''pants'') vd;
          shoes_data = filter (\<lambda>r. category r = ''shoes'') vd;
          outers_data = filter (\<lambda>r. category r = ''outers'') vd;
          clothes_top_split = randomSplit draw 42 clothes_top_data;
          pants_split = randomSplit draw 42 pants_data;
          shoes_split = randomSplit draw 42 shoes_data;
          outers_split = randomSplit draw 42 outers_data
      in case train_model learn (fst clothes_top_split) of Inl e \<Rightarrow> Inl e | Inr m1 \<Rightarrow>
        (case train_model learn (fst pants_split) of Inl e \<Rightarrow> Inl e | Inr m2 \<Rightarrow>
        (case train_model learn (fst shoes_split) of Inl e \<Rightarrow> Inl e | Inr m3 \<Rightarrow>
        (case train_model learn (fst outers_split) of Inl e \<Rightarrow> Inl e | Inr m4 \<Rightarrow>
           Inr \<lparr>clothes_top_data_train = fst clothes_top_split,
                clothes_top_data_test = snd clothes_top_split,
                pants_data_train = fst pants_split,
                pants_data_test = snd pants_split,
                shoes_data_train = fst shoes_split,
                shoes_data_test = snd shoes_split,
                outers_data_train = fst outers_split,
                outers_data_test = snd outers_split,
                clothes_top_model = m1, pants_model = m2,
                shoes_model = m3, outers_model = m4\<rparr>))))"

text \<open>
  The feature vector of every row, from the joined table: what the assembler of
  \<^verbatim>\<open>train_model\<close> computes on the rows of \<^verbatim>\<open>self.vectorized_data\<close>.
\<close>

definition feature_vectors :: "joined_record list \<Rightarrow> py_error + real list list" where
  "feature_vectors jd =
     (case encode_and_split jd of Inl e \<Rightarrow> Inl e
      | Inr sd \<Rightarrow> (case vectorize_keywords sd of Inl e \<Rightarrow> Inl e
                   | Inr vd \<Rightarrow> Inr (map VectorAssembler_transform vd)))"

section \<open>The columns of the data frames\<close>

text \<open>
  Modelled from the spec: the headers of \<^verbatim>\<open>product_rankings.csv\<close> and
  \<^verbatim>\<open>product_keywords.csv\<close>, which the source reads with \<^verbatim>\<open>header=True\<close> and that are not
  part of it. The columns are those of section 6 of the specification.
\<close>

definition product_rankings_columns :: "string list" where
  "product_rankings_columns = [''productId'', ''date'', ''ranking'']"

definition product_keywords_columns :: "string list" where
  "product_keywords_columns =
     [''productId'', ''brandName'', ''colors'', ''keywords'', ''rating'', ''ratingCount'',
      ''price'', ''discountRate'', ''conversionRate'', ''trending'', ''totalSales'', ''views'',
      ''likes'', ''category'']"

text \<open>
  \<^verbatim>\<open>withColumn\<close> replaces a column of the same name and otherwise adds the column at the
  end; \<^verbatim>\<open>drop\<close> removes a column; a join \<^verbatim>\<open>on\<close> a column keeps that column once, followed
  by the other columns of the left and of the right table.
\<close>

definition withColumn :: "string \<Rightarrow> string list \<Rightarrow> string list" where
  "withColumn c cols = (if c \<in> set cols then cols else cols @ [c])"

definition drop_column :: "string \<Rightarrow> string list \<Rightarrow> string list" where
  "drop_column c cols = filter (\<lambda>x. x \<noteq> c) cols"

definition join_columns :: "string \<Rightarrow> string list \<Rightarrow> string list \<Rightarrow> string list" where
  "join_columns on_column left right =
     on_column # filter (\<lambda>x. x \<noteq> on_column) left @ filter (\<lambda>x. x \<noteq> on_column) right"

text \<open>The columns of \<^verbatim>\<open>self.product_rankings\<close> after line 39 and after line 42.\<close>

definition rankings_columns_labelled :: "string list" where
  "rankings_columns_labelled =
     withColumn ''recommend''
       (drop_column ''row_number'' (withColumn ''row_number'' product_rankings_columns))"

definition rankings_columns_dropped :: "string list" where
  "rankings_columns_dropped = drop_column ''ranking'' rankings_columns_labelled"

text \<open>The columns of \<^verbatim>\<open>self.joined_data\<close> after line 61 and of \<^verbatim>\<open>self.vectorized_data\<close>.\<close>

definition joined_data_columns :: "string list" where
  "joined_data_columns =
     withColumn ''keywords''
       (withColumn ''colors_ohe'' (withColumn ''brand_ohe''
         (withColumn ''colors_index'' (withColumn ''brand_index''
           (join_columns ''productId'' rankings_columns_dropped product_keywords_columns)))))"

definition vectorized_data_columns :: "string list" where
  "vectorized_data_columns =
     withColumn ''keyword_features'' (withColumn ''filtered_keywords'' joined_data_columns)"

section \<open>predict\_and\_evaluate (lines 161 to 235)\<close>

text \<open>A row of a prediction table, after the \<^verbatim>\<open>select\<close> of lines 173 to 176.\<close>

record prediction_record =
  pr_productId :: nat
  pr_category :: string
  pr_recommend :: nat
  predicted_recommend :: nat

text \<open>Lines 162 to 165 with the \<^verbatim>\<open>select\<close> that follows.\<close>

definition predict_recommendation ::
  "vectorized_record list \<Rightarrow> classifier \<Rightarrow> prediction_record list" where
  "predict_recommendation test_data m =
     map (\<lambda>r. \<lparr>pr_productId = productId r, pr_category = category r,
               pr_recommend = recommend r, predicted_recommend = model_transform m r\<rparr>)
         test_data"

text \<open>A block of the printed report.\<close>

record confusion_counts =
  tp :: nat
  fn :: nat
  fp :: nat
  tn :: nat
  recall :: real
  precision :: real

text \<open>
  Lines 200 to 206 and 219 to 225. The quotient of two counts rounded by Python's
  \<^verbatim>\<open>round(_, 2)\<close> is floating-point arithmetic; rounding is a parameter, \<open>round2\<close>, applied to
  the exact quotient.
\<close>

definition count_confusion :: "(real \<Rightarrow> real) \<Rightarrow> prediction_record list \<Rightarrow> confusion_counts" where
  "count_confusion round2 predictions =
     (let tp' = length (filter (\<lambda>p. predicted_recommend p = 1 \<and> pr_recommend p = 1) predictions);
          fn' = length (filter (\<lambda>p. predicted_recommend p = 0 \<and> pr_recommend p = 1) predictions);
          fp' = length (filter (\<lambda>p. predicted_recommend p = 1 \<and> pr_recommend p = 0) predictions);
          tn' = length (filter (\<lambda>p. predicted_recommend p = 0 \<and> pr_recommend p = 0) predictions)
      in \<lparr>tp = tp', fn = fn', fp = fp', tn = tn',
          recall = (if tp' + fn' > 0 then round2 (real tp' / real (tp' + fn')) else 0),
          precision = (if tp' + fp' > 0 then round2 (real tp' / real (tp' + fp')) else 0)\<rparr>)"

text \<open>Line 196.\<close>

definition categories :: "string list" where
  "categories = [''clothes_top'', ''pants'', ''shoes'', ''outers'']"

text \<open>Lines 190 to 193 (and 240, 241): \<^verbatim>\<open>union\<close> keeps every row of every table.\<close>

definition union_predictions ::
  "prediction_record list \<Rightarrow> prediction_record list \<Rightarrow> prediction_record list \<Rightarrow>
   prediction_record list \<Rightarrow> prediction_record list" where
  "union_predictions a b c d = a @ b @ c @ d"

text \<open>The attributes that \<^verbatim>\<open>predict_and_evaluate\<close> sets, and what it prints.\<close>

record evaluated =
  clothes_top_predictions_result :: "prediction_record list"
  pants_predictions_result :: "prediction_record list"
  shoes_predictions_result :: "prediction_record list"
  outers_predictions_result :: "prediction_record list"
  category_results :: "(string \<times> confusion_counts) list"
  overall_results :: confusion_counts

definition predict_and_evaluate :: "(real \<Rightarrow> real) \<Rightarrow> trained \<Rightarrow> evaluated" where
  "predict_and_evaluate round2 t =
     (let clothes_top_predictions =
            predict_recommendation (clothes_top_data_test t) (clothes_top_model t);
          pants_predictions = predict_recommendation (pants_data_test t) (pants_model t);
          shoes_predictions = predict_recommendation (shoes_data_test t) (shoes_model t);
          outers_predictions = predict_recommendation (outers_data_test t) (outers_model t);
          all_predictions_result =
            union_predictions clothes_top_predictions pants_predictions
              shoes_predictions outers_predictions
      in \<lparr>clothes_top_predictions_result = clothes_top_predictions,
          pants_predictions_result = pants_predictions,
          shoes_predictions_result = shoes_predictions,
          outers_predictions_result = outers_predictions,
          category_results =
            map (\<lambda>c. (c, count_confusion round2
                           (filter (\<lambda>p. pr_category p = c) all_predictions_result)))
                categories,
          overall_results = count_confusion round2 all_predictions_result\<rparr>)"

section \<open>save\_results and main (lines 239 to 263)\<close>

text \<open>What \<^verbatim>\<open>to_csv(path, index=False, encoding="utf-8-sig")\<close> writes.\<close>

record csv_file =
  csv_path :: string
  csv_byte_order_mark :: bool
  csv_header :: "string list"
  csv_rows :: "prediction_record list"

text \<open>
  Lines 239 to 248, the body of \<^verbatim>\<open>save_results\<close>. \<^verbatim>\<open>os.path.join\<close> of a directory that
  ends in a slash and a file name is their concatenation.
\<close>

definition save_results :: "string \<Rightarrow> evaluated \<Rightarrow> csv_file" where
  "save_results output_dir ev =
     \<lparr>csv_path = output_dir @ ''predict_output.csv'',
      csv_byte_order_mark = True,
      csv_header = [''productId'', ''category'', ''recommend'', ''predicted_recommend''],
      csv_rows = union_predictions (clothes_top_predictions_result ev)
                   (pants_predictions_result ev) (shoes_predictions_result ev)
                   (outers_predictions_result ev)\<rparr>"

text \<open>
  The functions defined in the body of \<^verbatim>\<open>class ProductRecommendation\<close>, lines 17 to 235:
  the \<^verbatim>\<open>def\<close> statements indented under the class. The \<^verbatim>\<open>def save_results(self)\<close> of line
  239 starts in the first column, as \<^verbatim>\<open>def main()\<close> does: both are functions of the
  module.
\<close>

definition class_ProductRecommendation :: "string list" where
  "class_ProductRecommendation =
     [''__init__'', ''preprocess_data'', ''vectorize_keywords'', ''train_models'',
      ''evaluate_models'', ''predict_and_evaluate'']"

definition module_functions :: "string list" where
  "module_functions = [''save_results'', ''main'']"

text \<open>The attributes that the methods assign on the instance.\<close>

definition instance_attributes :: "string list" where
  "instance_attributes =
     [''spark'', ''product_rankings'', ''product_keywords'', ''output_dir'', ''joined_data'',
      ''vectorized_data'', ''clothes_top_data'', ''pants_data'', ''shoes_data'', ''outers_data'',
      ''clothes_top_data_train'', ''clothes_top_data_test'', ''pants_data_train'',
      ''pants_data_test'', ''shoes_data_train'', ''shoes_data_test'', ''outers_data_train'',
      ''outers_data_test'', ''clothes_top_model'', ''pants_model'', ''shoes_model'',
      ''outers_model'',
      ''clothes_top_accuracy_train'', ''clothes_top_precision_train'',
      ''clothes_top_recall_train'', ''pants_accuracy_train'', ''pants_precision_train'',
      ''pants_recall_train'', ''shoes_accuracy_train'', ''shoes_precision_train'',
      ''shoes_recall_train'', ''outers_accuracy_train'', ''outers_precision_train'',
      ''outers_recall_train'', ''clothes_top_accuracy_test'', ''clothes_top_precision_test'',
      ''clothes_top_recall_test'', ''pants_accuracy_test'', ''pants_precision_test'',
      ''pants_recall_test'', ''shoes_accuracy_test'', ''shoes_precision_test'',
      ''shoes_recall_test'', ''outers_accuracy_test'', ''outers_precision_test'',
      ''outers_recall_test'', ''clothes_top_predictions_result'',
      ''pants_predictions_result'', ''shoes_predictions_result'',
      ''outers_predictions_result'']"

text \<open>
  \<^verbatim>\<open>recommendation.name(...)\<close>: the attribute is looked up on the instance and then on its
  class. An attribute of the instance is a table, a model or a number, and calling it
  raises \<^verbatim>\<open>TypeError\<close>; a function of the class runs as a method; when neither has the
  name, Python raises \<^verbatim>\<open>AttributeError\<close> and no body runs.
\<close>

definition call_method :: "string \<Rightarrow> py_error + 'a \<Rightarrow> py_error + 'a" where
  "call_method name body =
     (if name \<in> set instance_attributes then Inl (TypeError name)
      else if name \<in> set class_ProductRecommendation then body
      else Inl (AttributeError name))"

text \<open>
  Lines 250 to 263. \<^verbatim>\<open>evaluate_models\<close> computes the accuracies that are printed; it
  assigns nothing that a later step reads, and is a step without a result here. A run that
  ends normally returns the report and the file written.
\<close>

definition main ::
  "(real \<Rightarrow> real) \<Rightarrow> learner \<Rightarrow> (nat \<Rightarrow> nat \<Rightarrow> real) \<Rightarrow> ranking_record list \<Rightarrow>
   keyword_record list \<Rightarrow> py_error + (evaluated \<times> csv_file)" where
  "main round2 learn draw product_rankings product_keywords =
     (case call_method ''preprocess_data'' (preprocess_data product_rankings product_keywords) of
        Inl e \<Rightarrow> Inl e | Inr joined_data \<Rightarrow>
     (case call_method ''vectorize_keywords'' (vectorize_keywords joined_data) of
        Inl e \<Rightarrow> Inl e | Inr vectorized_data \<Rightarrow>
     (case call_method ''train_models'' (train_models learn draw vectorized_data) of
        Inl e \<Rightarrow> Inl e | Inr t \<Rightarrow>
     (case call_method ''evaluate_models'' (Inr ()) of
        Inl e \<Rightarrow> Inl e | Inr _ \<Rightarrow>
     (case call_method ''predict_and_evaluate'' (Inr (predict_and_evaluate round2 t)) of
        Inl e \<Rightarrow> Inl e | Inr ev \<Rightarrow>
     (case call_method ''save_results'' (Inr (save_results ''./data/output/'' ev)) of
        Inl e \<Rightarrow> Inl e | Inr file \<Rightarrow> Inr (ev, file)))))))"

section \<open>An example run\<close>

text \<open>
  Six products with rankings, five of them with a row of keywords. Product 1 has two
  observations, a keyword with a capital letter and no colour; product 2 has no keywords;
  product 3 has a keyword of digits; the only keyword of product 4 has a capital letter;
  product 6 has no row of keywords.
\<close>

definition example_rankings :: "ranking_record list" where
  "example_rankings =
     [\<lparr>rk_productId = 1, rk_date = 1, ranking = 10\<rparr>,
      \<lparr>rk_productId = 1, rk_date = 3, ranking = 200\<rparr>,
      \<lparr>rk_productId = 2, rk_date = 2, ranking = 5\<rparr>,
      \<lparr>rk_productId = 3, rk_date = 2, ranking = 30\<rparr>,
      \<lparr>rk_productId = 4, rk_date = 2, ranking = 150\<rparr>,
      \<lparr>rk_productId = 5, rk_date = 2, ranking = 151\<rparr>,
      \<lparr>rk_productId = 6, rk_date = 2, ranking = 7\<rparr>]"

text \<open>The same observations with other rankings.\<close>

definition example_rankings_reranked :: "ranking_record list" where
  "example_rankings_reranked =
     [\<lparr>rk_productId = 1, rk_date = 1, ranking = 300\<rparr>,
      \<lparr>rk_productId = 1, rk_date = 3, ranking = 1\<rparr>,
      \<lparr>rk_productId = 2, rk_date = 2, ranking = 299\<rparr>,
      \<lparr>rk_productId = 3, rk_date = 2, ranking = 298\<rparr>,
      \<lparr>rk_productId = 4, rk_date = 2, ranking = 297\<rparr>,
      \<lparr>rk_productId = 5, rk_date = 2, ranking = 2\<rparr>,
      \<lparr>rk_productId = 6, rk_date = 2, ranking = 296\<rparr>]"

definition example_keyword ::
  "nat \<Rightarrow> string \<Rightarrow> string option \<Rightarrow> utext option \<Rightarrow> string \<Rightarrow> keyword_record" where
  "example_keyword p b c k cat =
     \<lparr>kw_productId = p, kw_brandName = b, kw_colors = c, kw_keywords = k,
      kw_rating = None, kw_ratingCount = Some 3, kw_price = 10, kw_discountRate = 0,
      kw_conversionRate = 0, kw_trending = 0, kw_totalSales = 0, kw_views = 0, kw_likes = 0,
      kw_category = cat\<rparr>"

text \<open>
  The keywords are \<^verbatim>\<open>Nike, shoes\<close> for product 1, \<^verbatim>\<open>shoes, 2024\<close> for product 3,
  \<^verbatim>\<open>Shoes\<close> for product 4 and \<^verbatim>\<open>shoes\<close> for product 5.
\<close>

definition example_keywords :: "keyword_record list" where
  "example_keywords =
     [example_keyword 1 ''nike'' None
        (Some [78, 105, 107, 101, 44, 32, 115, 104, 111, 101, 115]) ''shoes'',
      example_keyword 2 ''nike'' (Some ''red'') None ''shoes'',
      example_keyword 3 ''adi'' (Some ''red'')
        (Some [115, 104, 111, 101, 115, 44, 32, 50, 48, 50, 52]) ''pants'',
      example_keyword 4 ''adi'' (Some ''red'') (Some [83, 104, 111, 101, 115]) ''clothes_top'',
      example_keyword 5 ''adi'' (Some ''red'') (Some [115, 104, 111, 101, 115]) ''outers'']"

text \<open>A generator that sends the first row of a table to the training part and the others
  to the test part, and a learner whose classifiers recommend everything.\<close>

definition example_draw :: "nat \<Rightarrow> nat \<Rightarrow> real" where
  "example_draw seed i = (if i = 0 then 1 / 10 else 9 / 10)"

definition example_learn :: learner where
  "example_learn data = (\<lambda>features. True)"

text \<open>The tables of the example after \<^verbatim>\<open>preprocess_data\<close> and after \<^verbatim>\<open>vectorize_keywords\<close>.\<close>

definition example_joined_data :: "split_record list" where
  "example_joined_data = projr (preprocess_data example_rankings example_keywords)"

definition example_vectorized_data :: "vectorized_record list" where
  "example_vectorized_data = projr (vectorize_keywords example_joined_data)"

text \<open>A column of keywords with 101 distinct keywords, of 1 to 101 letters a.\<close>

definition example_many_keywords :: "utext list list" where
  "example_many_keywords = [map (\<lambda>i. replicate (Suc i) 97) [0 ..< 101]]"

definition example_trained :: trained where
  "example_trained = projr (train_models example_learn example_draw example_vectorized_data)"



text \<open>Products 2 and 5 only: no keyword has a capital letter or a digit.\<close>

definition example_keywords_clean :: "keyword_record list" where
  "example_keywords_clean =
     [example_keyword 2 ''nike'' (Some ''red'') None ''shoes'',
      example_keyword 5 ''adi'' (Some ''red'') (Some [115, 104, 111, 101, 115]) ''outers'']"

lemmas pipeline_defs =
  preprocess_data_def encode_and_split_def joined_rows_def encoder_pipeline_def encode_row_def fillna_def
  join_on_productId_def product_rankings_labelled_def drop_ranking_def with_recommend_def
  when_ranking_def dedup_rankings_def row_number_over_window_def upt_conv_Cons
  StringIndexer_fit_def frequencyDesc_def StringIndexer_transform_def
  OneHotEncoder_transform_def with_keywords_array_def
  joined_record.defs encoded_record.defs split_record.defs vectorized_record.defs
  vectorize_keywords_def top_keywords_list_def keywords_by_count_def groupBy_count_def
  keywords_cleaned_def clean_keyword_def lower_cp_def keep_cp_def filter_keywords_def
  CountVectorizer_fit_def CountVectorizerModel_transform_def
  train_models_def randomSplit_def train_model_def Let_def

lemmas example_defs =
  example_rankings_def example_rankings_reranked_def example_keywords_def example_keyword_def example_draw_def
  example_learn_def

lemmas example_eval =
  example_vectorized_data_def example_joined_data_def pipeline_defs example_defs

section \<open>Deduplication keeps the latest row of each product\<close>

lemma first_row_number:
  assumes "xs \<noteq> []" and "1 \<le> n"
  shows "map fst (filter (\<lambda>(r, k). k = 1) (zip xs [1 ..< Suc n])) = [hd xs]"
proof -
  obtain x xs' where xs: "xs = x # xs'"
    using assms(1) by (cases xs) auto
  have up: "[1 ..< Suc n] = 1 # [Suc 1 ..< Suc n]"
    using assms(2) by (intro upt_conv_Cons) simp
  have "k \<noteq> 1" if "(r, k) \<in> set (zip xs' [Suc 1 ..< Suc n])" for r k
    using set_zip_rightD[OF that] by auto
  then have e: "filter (\<lambda>(r, k). k = 1) (zip xs' [Suc 1 ..< Suc n]) = []"
    unfolding filter_empty_conv by blast
  have "map fst (filter (\<lambda>(r, k). k = 1) (zip (x # xs') (1 # [Suc 1 ..< Suc n]))) = [x]"
    by (simp only: zip_Cons_Cons filter.simps e split) simp
  then show ?thesis
    unfolding xs up by simp
qed

lemma dedup_rankings_hd:
  "dedup_rankings rs =
     map (\<lambda>p. hd (sort_key (\<lambda>r. - rk_date r) (filter (\<lambda>r. rk_productId r = p) rs)))
         (remdups (map rk_productId rs))"
proof -
  have one: "map fst (filter (\<lambda>(r, k). k = 1)
               (zip (sort_key (\<lambda>r. - rk_date r) (filter (\<lambda>r. rk_productId r = p) rs))
                    [1 ..< Suc (length rs)]))
             = [hd (sort_key (\<lambda>r. - rk_date r) (filter (\<lambda>r. rk_productId r = p) rs))]"
    if "p \<in> set (remdups (map rk_productId rs))" for p
  proof (rule first_row_number)
    from that obtain r where "r \<in> set rs" "rk_productId r = p" by auto
    then have "filter (\<lambda>r. rk_productId r = p) rs \<noteq> []"
      by (auto simp: filter_empty_conv)
    then show "sort_key (\<lambda>r. - rk_date r) (filter (\<lambda>r. rk_productId r = p) rs) \<noteq> []"
      by (metis length_sort length_0_conv)
    from \<open>r \<in> set rs\<close> show "1 \<le> length rs"
      by (cases rs) auto
  qed
  have "dedup_rankings rs =
          concat (map (\<lambda>p. map fst (filter (\<lambda>(r, k). k = 1)
               (zip (sort_key (\<lambda>r. - rk_date r) (filter (\<lambda>r. rk_productId r = p) rs))
                    [1 ..< Suc (length rs)])))
             (remdups (map rk_productId rs)))"
    by (simp add: dedup_rankings_def row_number_over_window_def filter_concat map_concat comp_def)
  also have "\<dots> = concat (map (\<lambda>p. [hd (sort_key (\<lambda>r. - rk_date r)
                        (filter (\<lambda>r. rk_productId r = p) rs))])
             (remdups (map rk_productId rs)))"
    using one by (intro arg_cong[where f = concat] map_cong refl) blast
  also have "\<dots> = map (\<lambda>p. hd (sort_key (\<lambda>r. - rk_date r) (filter (\<lambda>r. rk_productId r = p) rs)))
                       (remdups (map rk_productId rs))"
    by (induction "remdups (map rk_productId rs)") auto
  finally show ?thesis .
qed

lemma hd_sort_key_least:
  assumes "xs \<noteq> []"
  shows "hd (sort_key f xs) \<in> set xs \<and> (\<forall>y \<in> set xs. f (hd (sort_key f xs)) \<le> f y)"
proof -
  obtain z zs where s: "sort_key f xs = z # zs"
    using assms by (cases "sort_key f xs") (auto dest: arg_cong[where f = length])
  have "sorted (map f (z # zs))"
    using sorted_sort_key[of f xs] by (simp only: s)
  then have le: "\<forall>y \<in> set (z # zs). f z \<le> f y"
    by auto
  have eq: "set (z # zs) = set xs"
    using set_sort[of f xs] by (simp only: s)
  have "z \<in> set xs"
    unfolding eq[symmetric] by simp
  moreover have "\<forall>y \<in> set xs. f z \<le> f y"
    using le unfolding eq .
  ultimately show ?thesis
    by (simp add: s)
qed

lemma dedup_rankings_latest:
  assumes "r \<in> set (dedup_rankings rs)"
  shows "r \<in> set rs \<and> (\<forall>r' \<in> set rs. rk_productId r' = rk_productId r \<longrightarrow> rk_date r' \<le> rk_date r)"
proof -
  from assms obtain p where p: "p \<in> set (map rk_productId rs)"
    and r: "r = hd (sort_key (\<lambda>r. - rk_date r) (filter (\<lambda>r. rk_productId r = p) rs))"
    by (auto simp: dedup_rankings_hd)
  from p have ne: "filter (\<lambda>r. rk_productId r = p) rs \<noteq> []"
    by (auto simp: filter_empty_conv)
  from hd_sort_key_least[OF ne, of "\<lambda>r. - rk_date r"] r
  have in_part: "r \<in> set (filter (\<lambda>r. rk_productId r = p) rs)"
    and least: "\<forall>y \<in> set (filter (\<lambda>r. rk_productId r = p) rs). - rk_date r \<le> - rk_date y"
    by simp_all
  from in_part have "r \<in> set rs" "rk_productId r = p" by auto
  with least show ?thesis by auto
qed

lemma dedup_rankings_productId:
  "map rk_productId (dedup_rankings rs) = remdups (map rk_productId rs)"
proof -
  have "rk_productId (hd (sort_key (\<lambda>r. - rk_date r) (filter (\<lambda>r. rk_productId r = p) rs))) = p"
    if "p \<in> set (remdups (map rk_productId rs))" for p
  proof -
    from that have ne: "filter (\<lambda>r. rk_productId r = p) rs \<noteq> []"
      by (auto simp: filter_empty_conv)
    from hd_sort_key_least[OF ne, of "\<lambda>r. - rk_date r"] show ?thesis by simp
  qed
  then have "map (\<lambda>p. rk_productId (hd (sort_key (\<lambda>r. - rk_date r)
                 (filter (\<lambda>r. rk_productId r = p) rs)))) (remdups (map rk_productId rs))
             = map (\<lambda>p. p) (remdups (map rk_productId rs))"
    by (intro map_cong refl) blast
  then show ?thesis
    by (simp add: dedup_rankings_hd comp_def)
qed

lemma length_filter_key_distinct:
  "distinct (map f xs) \<Longrightarrow> p \<in> f ` set xs \<Longrightarrow> length (filter (\<lambda>r. f r = p) xs) = 1"
proof (induction xs)
  case Nil
  then show ?case by simp
next
  case (Cons a xs)
  show ?case
  proof (cases "f a = p")
    case True
    with Cons.prems have "p \<notin> f ` set xs" by auto
    then have "filter (\<lambda>r. f r = p) xs = []"
      by (auto simp: filter_empty_conv)
    with True show ?thesis by simp
  next
    case False
    with Cons show ?thesis by auto
  qed
qed

text \<open>
  Claim C2. For every table of rankings, the deduplicated table holds each product
  identifier of the input exactly once, every surviving row is a row of the input, and
  its date is the greatest among the input rows of its product. Which of several rows
  with that greatest date survives is not stated.
\<close>

theorem dedup_one_latest_row_per_product:
  "distinct (map rk_productId (dedup_rankings rs))
   \<and> set (map rk_productId (dedup_rankings rs)) = set (map rk_productId rs)
   \<and> (\<forall>p \<in> set (map rk_productId rs).
         length (filter (\<lambda>r. rk_productId r = p) (dedup_rankings rs)) = 1)
   \<and> (\<forall>r \<in> set (dedup_rankings rs).
         r \<in> set rs \<and> (\<forall>r' \<in> set rs. rk_productId r' = rk_productId r \<longrightarrow> rk_date r' \<le> rk_date r))"
proof (intro conjI ballI)
  show d: "distinct (map rk_productId (dedup_rankings rs))"
    by (simp add: dedup_rankings_productId)
  show s: "set (map rk_productId (dedup_rankings rs)) = set (map rk_productId rs)"
    by (simp add: dedup_rankings_productId)
  fix p assume "p \<in> set (map rk_productId rs)"
  with s have "p \<in> rk_productId ` set (dedup_rankings rs)" by simp
  with d show "length (filter (\<lambda>r. rk_productId r = p) (dedup_rankings rs)) = 1"
    by (rule length_filter_key_distinct)
next
  fix r assume "r \<in> set (dedup_rankings rs)"
  then show "r \<in> set rs" by (simp add: dedup_rankings_latest)
next
  fix r r' assume "r \<in> set (dedup_rankings rs)" "r' \<in> set rs"
  then show "rk_productId r' = rk_productId r \<longrightarrow> rk_date r' \<le> rk_date r"
    using dedup_rankings_latest by blast
qed

theorem dedup_one_latest_row_per_product_witness:
  "dedup_rankings
     [\<lparr>rk_productId = 7, rk_date = 1, ranking = 10\<rparr>,
      \<lparr>rk_productId = 7, rk_date = 3, ranking = 200\<rparr>,
      \<lparr>rk_productId = 9, rk_date = 2, ranking = 5\<rparr>,
      \<lparr>rk_productId = 7, rk_date = 2, ranking = 30\<rparr>]
   = [\<lparr>rk_productId = 9, rk_date = 2, ranking = 5\<rparr>,
      \<lparr>rk_productId = 7, rk_date = 3, ranking = 200\<rparr>]
   \<and> length (filter (\<lambda>r. rk_productId r = 7) (dedup_rankings
     [\<lparr>rk_productId = 7, rk_date = 1, ranking = 10\<rparr>,
      \<lparr>rk_productId = 7, rk_date = 3, ranking = 200\<rparr>,
      \<lparr>rk_productId = 9, rk_date = 2, ranking = 5\<rparr>,
      \<lparr>rk_productId = 7, rk_date = 2, ranking = 30\<rparr>])) = 1"
  using dedup_one_latest_row_per_product
    [of "[\<lparr>rk_productId = 7, rk_date = 1, ranking = 10\<rparr>,
          \<lparr>rk_productId = 7, rk_date = 3, ranking = 200\<rparr>,
          \<lparr>rk_productId = 9, rk_date = 2, ranking = 5\<rparr>,
          \<lparr>rk_productId = 7, rk_date = 2, ranking = 30\<rparr>]"]
  by (simp add: dedup_rankings_def row_number_over_window_def upt_conv_Cons)

text \<open>
  Claim C1. The label of every deduplicated row is 1 when its ranking is at most 150 and
  0 otherwise, and nothing else enters the label: the labelled table is the deduplicated
  table with \<open>if ranking \<le> 150 then 1 else 0\<close> in the column \<^verbatim>\<open>recommend\<close>. Ranking 150
  gives 1 and ranking 151 gives 0.
\<close>

theorem recommend_iff_ranking_le_150:
  "with_recommend (dedup_rankings rs)
     = map (\<lambda>r. (r, if ranking r \<le> 150 then 1 else 0)) (dedup_rankings rs)
   \<and> map lb_recommend (product_rankings_labelled rs)
     = map (\<lambda>r. if ranking r \<le> 150 then 1 else 0) (dedup_rankings rs)
   \<and> (\<forall>k. (when_ranking k = 1) = (k \<le> 150))
   \<and> (\<forall>k. (when_ranking k = 0) = (\<not> k \<le> 150))
   \<and> when_ranking 150 = 1 \<and> when_ranking 151 = 0"
  by (simp add: with_recommend_def product_rankings_labelled_def drop_ranking_def
      when_ranking_def comp_def)


section \<open>The run of main\<close>

lemma save_results_not_a_method:
  "call_method ''save_results'' body = Inl (AttributeError ''save_results'')"
  by (simp add: call_method_def class_ProductRecommendation_def instance_attributes_def)

text \<open>
  Claim C4. The claim says that a run of \<^verbatim>\<open>main\<close> writes \<^verbatim>\<open>predict_output.csv\<close>. No run of
  \<^verbatim>\<open>main\<close> returns a file: every run ends with an exception. On the example, where the
  five methods of the class succeed, the exception is the \<^verbatim>\<open>AttributeError\<close> raised by
  \<^verbatim>\<open>recommendation.save_results()\<close>, since \<^verbatim>\<open>save_results\<close> is not defined in the class.
\<close>

theorem main_raises_before_writing:
  "''save_results'' \<in> set module_functions
   \<and> ''save_results'' \<notin> set class_ProductRecommendation
   \<and> (\<exists>e. main round2 learn draw product_rankings product_keywords = Inl e)
   \<and> main (\<lambda>x. x) example_learn example_draw example_rankings example_keywords
       = Inl (AttributeError ''save_results'')"
proof (intro conjI)
  show "''save_results'' \<in> set module_functions"
    by (simp add: module_functions_def)
  show "''save_results'' \<notin> set class_ProductRecommendation"
    by (simp add: class_ProductRecommendation_def)
  show "\<exists>e. main round2 learn draw product_rankings product_keywords = Inl e"
    by (simp add: main_def save_results_not_a_method split: sum.splits)
  show "main (\<lambda>x. x) example_learn example_draw example_rankings example_keywords
          = Inl (AttributeError ''save_results'')"
    by (simp add: main_def call_method_def class_ProductRecommendation_def
        instance_attributes_def pipeline_defs example_defs)
qed

section \<open>The encoders of brand and colour\<close>

lemma set_frequencyDesc: "set (frequencyDesc xs) = set xs"
  by (simp add: frequencyDesc_def)

lemma distinct_frequencyDesc: "distinct (frequencyDesc xs)"
  by (simp add: frequencyDesc_def)

lemma length_frequencyDesc: "length (frequencyDesc xs) = card (set xs)"
  by (simp add: frequencyDesc_def length_remdups_card_conv)


lemma index_of_mem: "v \<in> set ls \<Longrightarrow> \<exists>i. index_of v ls = Some i"
  by (induction ls) auto

lemma traverse_Inr:
  "traverse f xs = Inr ys \<Longrightarrow> list_all2 (\<lambda>x y. f x = Inr y) xs ys"
  by (induction xs arbitrary: ys) (auto split: sum.splits)

lemma traverse_total:
  assumes "\<And>x. x \<in> set xs \<Longrightarrow> \<exists>y. f x = Inr y"
  shows "\<exists>ys. traverse f xs = Inr ys"
  using assms
proof (induction xs)
  case Nil
  show ?case by simp
next
  case (Cons x xs)
  from Cons.prems obtain y where y: "f x = Inr y" by auto
  from Cons obtain ys where "traverse f xs = Inr ys" by auto
  with y show ?case by simp
qed

lemma encode_row_total:
  assumes "brandName r \<in> set bl" "colors r \<in> set cl"
  shows "\<exists>y. encode_row bl cl r = Inr y"
  using index_of_mem[OF assms(1)] index_of_mem[OF assms(2)]
  by (auto simp: encode_row_def StringIndexer_transform_def)

lemma encoder_pipeline_total: "\<exists>enc. encoder_pipeline jd = Inr enc"
  unfolding encoder_pipeline_def
  by (rule traverse_total, rule encode_row_total) (simp_all add: StringIndexer_fit_def set_frequencyDesc)

lemma preprocess_data_total: "\<exists>jd. preprocess_data rs kws = Inr jd"
  using encoder_pipeline_total[of "joined_rows rs kws"]
  by (auto simp: preprocess_data_def encode_and_split_def)




lemma with_keywords_array_sel:
  "brandName (with_keywords_array e) = brandName e"
  "colors (with_keywords_array e) = colors e"
  "brand_index (with_keywords_array e) = brand_index e"
  "colors_index (with_keywords_array e) = colors_index e"
  "brand_ohe (with_keywords_array e) = brand_ohe e"
  "colors_ohe (with_keywords_array e) = colors_ohe e"
  "productId (with_keywords_array e) = productId e"
  "recommend (with_keywords_array e) = recommend e"
  "category (with_keywords_array e) = category e"
  "keywords_array (with_keywords_array e) = split_keywords [] (keywords_string e)"
  by (simp_all add: with_keywords_array_def encoded_record.defs split_record.defs)

lemma preprocess_data_rows:
  assumes "preprocess_data rs kws = Inr jd"
  shows "list_all2 (\<lambda>j r. \<exists>e. encode_row (StringIndexer_fit (map brandName (joined_rows rs kws)))
                                    (StringIndexer_fit (map colors (joined_rows rs kws))) j = Inr e
                              \<and> r = with_keywords_array e)
           (joined_rows rs kws) jd"
proof -
  from assms obtain enc where enc: "encoder_pipeline (joined_rows rs kws) = Inr enc"
    and jd: "jd = map with_keywords_array enc"
    by (auto simp: preprocess_data_def encode_and_split_def split: sum.splits)
  from enc have "list_all2 (\<lambda>j e. encode_row (StringIndexer_fit (map brandName (joined_rows rs kws)))
                                    (StringIndexer_fit (map colors (joined_rows rs kws))) j = Inr e)
           (joined_rows rs kws) enc"
    unfolding encoder_pipeline_def by (rule traverse_Inr)
  then show ?thesis
    unfolding jd by (simp add: list_all2_map2) (erule list_all2_mono, simp)
qed




lemma example_preprocess_data:
  "preprocess_data example_rankings example_keywords = Inr example_joined_data"
  using preprocess_data_total[of example_rankings example_keywords]
  by (auto simp: example_joined_data_def)





section \<open>The keyword vocabulary\<close>

lemma lower_cp_not_capital: "d \<in> set (lower_cp c) \<Longrightarrow> \<not> (65 \<le> d \<and> d \<le> 90)"
  by (auto simp: lower_cp_def split: if_splits)

lemma clean_keyword_chars:
  assumes "c \<in> set (clean_keyword k)"
  shows "(97 \<le> c \<and> c \<le> 122) \<or> (44032 \<le> c \<and> c \<le> 55203)"
proof -
  from assms have k: "keep_cp c" and "c \<in> set (concat (map lower_cp k))"
    by (simp_all add: clean_keyword_def)
  then obtain b where "c \<in> set (lower_cp b)" by auto
  then have "\<not> (65 \<le> c \<and> c \<le> 90)" by (rule lower_cp_not_capital)
  with k show ?thesis by (auto simp: keep_cp_def)
qed

lemma map_fst_groupBy_count: "map fst (groupBy_count xs) = remdups xs"
  by (simp add: groupBy_count_def comp_def)

lemma groupBy_count_snd: "(k, c) \<in> set (groupBy_count xs) \<Longrightarrow> c = count_list xs k"
  by (auto simp: groupBy_count_def)

lemma distinct_map_sort_key: "distinct (map f (sort_key k xs)) = distinct (map f xs)"
  by (simp add: distinct_map)

lemma keywords_by_count_facts:
  "distinct (map fst (keywords_by_count xs))" "set (map fst (keywords_by_count xs)) = set xs"
  "length (keywords_by_count xs) = card (set xs)"
  "(k, c) \<in> set (keywords_by_count xs) \<Longrightarrow> c = count_list xs k"
proof -
  show "distinct (map fst (keywords_by_count xs))"
    unfolding keywords_by_count_def distinct_map_sort_key map_fst_groupBy_count by simp
  have "set (map fst (keywords_by_count xs)) = set (map fst (groupBy_count xs))"
    unfolding keywords_by_count_def by simp
  then show "set (map fst (keywords_by_count xs)) = set xs"
    unfolding map_fst_groupBy_count by simp
  have "length (keywords_by_count xs) = length (map fst (groupBy_count xs))"
    unfolding keywords_by_count_def by simp
  then show "length (keywords_by_count xs) = card (set xs)"
    unfolding map_fst_groupBy_count by (simp add: length_remdups_card_conv)
  show "c = count_list xs k" if "(k, c) \<in> set (keywords_by_count xs)"
    using that groupBy_count_snd[of k c xs] by (simp add: keywords_by_count_def)
qed

lemma keywords_by_count_sorted: "sorted (map (\<lambda>(k, c). - int c) (keywords_by_count xs))"
  unfolding keywords_by_count_def by (rule sorted_sort_key)

lemma keywords_by_count_take_drop:
  assumes "p \<in> set (take n (keywords_by_count xs))" "q \<in> set (drop n (keywords_by_count xs))"
  shows "snd q \<le> snd p"
proof -
  have "sorted (map (\<lambda>(k, c). - int c) (take n (keywords_by_count xs) @ drop n (keywords_by_count xs)))"
    using keywords_by_count_sorted[of xs] by simp
  then have "\<forall>x \<in> set (take n (keywords_by_count xs)). \<forall>y \<in> set (drop n (keywords_by_count xs)).
               (\<lambda>(k, c). - int c) x \<le> (\<lambda>(k, c). - int c) y"
    unfolding map_append sorted_append by auto
  with assms show ?thesis by (auto simp: case_prod_beta)
qed

lemma top_keywords_list_take:
  "top_keywords_list col = map fst (take 100 (keywords_by_count (keywords_cleaned col)))"
  by (simp add: top_keywords_list_def keywords_by_count_def)


lemma example_keywords_array:
  "map keywords_array example_joined_data =
     [[[78, 105, 107, 101], [115, 104, 111, 101, 115]], [[]],
      [[115, 104, 111, 101, 115], [50, 48, 50, 52]], [[83, 104, 111, 101, 115]],
      [[115, 104, 111, 101, 115]]]"
  by (simp add: example_joined_data_def pipeline_defs example_defs)

lemma example_top_keywords_list:
  "top_keywords_list (map keywords_array example_joined_data) =
     [[115, 104, 111, 101, 115], [], [110, 105, 107, 101]]"
  unfolding example_keywords_array
  by (simp add: top_keywords_list_def keywords_by_count_def groupBy_count_def
      keywords_cleaned_def clean_keyword_def lower_cp_def keep_cp_def)

lemma clean_keyword_letters: "clean_keyword (replicate n 97) = replicate n 97"
  by (induction n) (simp_all add: clean_keyword_def lower_cp_def keep_cp_def)

lemma example_many_cleaned:
  "keywords_cleaned example_many_keywords = map (\<lambda>i. replicate (Suc i) 97) [0 ..< 101]"
  unfolding example_many_keywords_def keywords_cleaned_def
  by (simp add: clean_keyword_letters del: upt_Suc replicate.simps)

lemma example_many_distinct:
  "distinct (keywords_cleaned example_many_keywords)"
  unfolding example_many_cleaned distinct_map
proof
  show "distinct [0 ..< 101]" by simp
  show "inj_on (\<lambda>i. replicate (Suc i) (97::nat)) (set [0 ..< 101])"
    by (rule inj_onI) (metis length_replicate nat.inject)
qed

lemma example_many_card: "card (set (keywords_cleaned example_many_keywords)) = 101"
  using distinct_card[OF example_many_distinct] by (simp add: example_many_cleaned)

text \<open>
  Claim C7, as the code has it. The vocabulary has at most 100 entries, as many as there
  are distinct cleaned keywords when these are fewer; its entries are distinct cleaned
  keywords of the corpus; every code point of an entry is a small ASCII letter or a
  Hangul syllable; no cleaned keyword outside the vocabulary occurs more often than one
  inside; and when the corpus has at most 100 distinct cleaned keywords, all of them are
  entries. A keyword that cleaning empties is counted like any other, as the empty
  keyword: nothing drops it.
\<close>

theorem keyword_vocabulary_top_100:
  "length (top_keywords_list col) \<le> 100
   \<and> length (top_keywords_list col) = min 100 (card (set (keywords_cleaned col)))
   \<and> distinct (top_keywords_list col)
   \<and> set (top_keywords_list col) \<subseteq> set (keywords_cleaned col)
   \<and> (\<forall>t \<in> set (top_keywords_list col). \<forall>c \<in> set t.
         (97 \<le> c \<and> c \<le> 122) \<or> (44032 \<le> c \<and> c \<le> 55203))
   \<and> (\<forall>t \<in> set (top_keywords_list col).
         \<forall>u \<in> set (keywords_cleaned col) - set (top_keywords_list col).
           count_list (keywords_cleaned col) u \<le> count_list (keywords_cleaned col) t)
   \<and> (card (set (keywords_cleaned col)) \<le> 100 \<longrightarrow>
         set (top_keywords_list col) = set (keywords_cleaned col))"
proof -
  define xs where "xs = keywords_cleaned col"
  define top where "top = top_keywords_list col"
  have top: "top = map fst (take 100 (keywords_by_count xs))"
    unfolding top_def xs_def by (rule top_keywords_list_take)
  have top': "top = take 100 (map fst (keywords_by_count xs))"
    unfolding top by (simp add: take_map)
  have len: "length top = min 100 (card (set xs))"
    unfolding top by (simp add: keywords_by_count_facts(3) min.commute)
  have dist: "distinct top"
    unfolding top' using keywords_by_count_facts(1)[of xs] by (rule distinct_take)
  have sub: "set top \<subseteq> set xs"
    unfolding top' using set_take_subset[of 100 "map fst (keywords_by_count xs)"]
    by (simp only: keywords_by_count_facts(2))
  have chars: "(97 \<le> c \<and> c \<le> 122) \<or> (44032 \<le> c \<and> c \<le> 55203)"
    if "t \<in> set top" "c \<in> set t" for t c
  proof -
    from that(1) sub have "t \<in> set xs" by blast
    then obtain k where "t = clean_keyword k"
      unfolding xs_def keywords_cleaned_def by auto
    with that(2) show ?thesis using clean_keyword_chars by blast
  qed
  have dom: "count_list xs u \<le> count_list xs t"
    if t: "t \<in> set top" and u: "u \<in> set xs" and nu: "u \<notin> set top" for t u
  proof -
    from t obtain p where p: "p \<in> set (take 100 (keywords_by_count xs))" "fst p = t"
      unfolding top by auto
    from u have "u \<in> set (map fst (keywords_by_count xs))"
      by (simp only: keywords_by_count_facts(2))
    then obtain q where q0: "q \<in> set (keywords_by_count xs)" "fst q = u"
      by auto
    have "set (keywords_by_count xs) = set (take 100 (keywords_by_count xs)) \<union> set (drop 100 (keywords_by_count xs))"
      by (metis append_take_drop_id set_append)
    with q0 nu have q: "q \<in> set (drop 100 (keywords_by_count xs))" "fst q = u"
      unfolding top by auto
    have "snd p = count_list xs t"
      using p keywords_by_count_facts(4)[of "fst p" "snd p" xs] in_set_takeD[of p 100 "keywords_by_count xs"]
      by (cases p) auto
    moreover have "snd q = count_list xs u"
      using q keywords_by_count_facts(4)[of "fst q" "snd q" xs] in_set_dropD[of q 100 "keywords_by_count xs"]
      by (cases q) auto
    ultimately show ?thesis
      using keywords_by_count_take_drop[OF p(1) q(1)] by simp
  qed
  have all: "set top = set xs" if "card (set xs) \<le> 100"
  proof -
    from that have "take 100 (keywords_by_count xs) = keywords_by_count xs"
      by (simp add: keywords_by_count_facts(3))
    then show ?thesis
      unfolding top using keywords_by_count_facts(2)[of xs] by simp
  qed
  from len have "length top \<le> 100" by simp
  with len dist sub chars dom all show ?thesis
    unfolding top_def xs_def by blast
qed


theorem keyword_vocabulary_top_100_witness:
  "top_keywords_list (map keywords_array example_joined_data)
     = [[115, 104, 111, 101, 115], [], [110, 105, 107, 101]]
   \<and> set (top_keywords_list (map keywords_array example_joined_data))
       = set (keywords_cleaned (map keywords_array example_joined_data))
   \<and> length (top_keywords_list (map keywords_array example_joined_data))
       = min 100 (card (set (keywords_cleaned (map keywords_array example_joined_data))))
   \<and> card (set (keywords_cleaned example_many_keywords)) = 101
   \<and> length (top_keywords_list example_many_keywords) = 100
   \<and> set (keywords_cleaned example_many_keywords)
       - set (top_keywords_list example_many_keywords) \<noteq> {}"
proof -
  have "card (set (keywords_cleaned (map keywords_array example_joined_data))) \<le> 100"
    unfolding example_keywords_array List.card_set
    by (simp add: keywords_cleaned_def clean_keyword_def lower_cp_def keep_cp_def)
  with keyword_vocabulary_top_100[of "map keywords_array example_joined_data"]
  have small: "set (top_keywords_list (map keywords_array example_joined_data))
            = set (keywords_cleaned (map keywords_array example_joined_data))
        \<and> length (top_keywords_list (map keywords_array example_joined_data))
            = min 100 (card (set (keywords_cleaned (map keywords_array example_joined_data))))"
    by blast
  note t = keyword_vocabulary_top_100[of example_many_keywords]
  from t have len: "length (top_keywords_list example_many_keywords) = 100"
    by (simp add: example_many_card)
  have "card (set (top_keywords_list example_many_keywords)) \<le> 100"
    using card_length[of "top_keywords_list example_many_keywords"] len by simp
  then have "set (keywords_cleaned example_many_keywords)
               \<noteq> set (top_keywords_list example_many_keywords)"
    using example_many_card by auto
  moreover from t have "set (top_keywords_list example_many_keywords)
                          \<subseteq> set (keywords_cleaned example_many_keywords)"
    by blast
  ultimately have "set (keywords_cleaned example_many_keywords)
       - set (top_keywords_list example_many_keywords) \<noteq> {}"
    by blast
  with small len show ?thesis
    using example_top_keywords_list example_many_card by blast
qed

text \<open>
  Claim C7 as stated fails on the example: the keyword \<^verbatim>\<open>2024\<close> of product 3 is cleaned to
  the empty keyword, and the empty keyword is an entry of the vocabulary.
\<close>

theorem empty_keyword_in_vocabulary_counterexample:
  "[50, 48, 50, 52] \<in> set (concat (map keywords_array example_joined_data))
   \<and> clean_keyword [50, 48, 50, 52] = []
   \<and> [] \<in> set (top_keywords_list (map keywords_array example_joined_data))"
proof (intro conjI)
  show "[50, 48, 50, 52] \<in> set (concat (map keywords_array example_joined_data))"
    unfolding example_keywords_array by simp
  show "clean_keyword [50, 48, 50, 52] = []"
    by (simp add: clean_keyword_def lower_cp_def keep_cp_def)
  show "[] \<in> set (top_keywords_list (map keywords_array example_joined_data))"
    unfolding example_top_keywords_list by simp
qed


section \<open>The keyword count vectors\<close>

lemma vectorized_sel:
  "keywords_array (split_record.extend r (vectorized_record.fields f k)) = keywords_array r"
  "filtered_keywords (split_record.extend r (vectorized_record.fields f k)) = f"
  "keyword_features (split_record.extend r (vectorized_record.fields f k)) = k"
  "productId (split_record.extend r (vectorized_record.fields f k)) = productId r"
  "recommend (split_record.extend r (vectorized_record.fields f k)) = recommend r"
  "category (split_record.extend r (vectorized_record.fields f k)) = category r"
  "brand_ohe (split_record.extend r (vectorized_record.fields f k)) = brand_ohe r"
  "colors_ohe (split_record.extend r (vectorized_record.fields f k)) = colors_ohe r"
  by (simp_all add: split_record.defs vectorized_record.defs)

lemma sorted_frequencyDesc:
  "sorted_wrt (\<lambda>t u. count_list xs u \<le> count_list xs t) (frequencyDesc xs)"
proof -
  have "sorted (map (\<lambda>v. - int (count_list xs v)) (frequencyDesc xs))"
    unfolding frequencyDesc_def by (rule sorted_sort_key)
  then show ?thesis
    by (simp add: sorted_map)
qed

lemma CountVectorizer_fit_Inr:
  assumes "CountVectorizer_fit docs = Inr vocabulary"
  shows "vocabulary = take 262144 (frequencyDesc (concat docs))" "vocabulary \<noteq> []"
  using assms by (auto simp: CountVectorizer_fit_def Let_def split: if_splits)

lemma vectorize_keywords_Inr:
  assumes "vectorize_keywords jd = Inr vd"
  shows "\<exists>vocabulary.
           CountVectorizer_fit (map (\<lambda>r. filter_keywords (top_keywords_list (map keywords_array jd))
                                        (keywords_array r)) jd) = Inr vocabulary
         \<and> vd = map (\<lambda>r. split_record.extend r (vectorized_record.fields
                     (filter_keywords (top_keywords_list (map keywords_array jd)) (keywords_array r))
                     (CountVectorizerModel_transform vocabulary
                        (filter_keywords (top_keywords_list (map keywords_array jd))
                           (keywords_array r))))) jd"
  using assms
  by (auto simp: vectorize_keywords_def Let_def comp_def split: sum.splits)

lemma vectorize_keywords_columns:
  assumes "vectorize_keywords jd = Inr vd"
  shows "map keywords_array vd = map keywords_array jd"
    and "map filtered_keywords vd
           = map (\<lambda>r. filter_keywords (top_keywords_list (map keywords_array jd)) (keywords_array r)) jd"
    and "map productId vd = map productId jd"
    and "map recommend vd = map recommend jd"
    and "map category vd = map category jd"
  using vectorize_keywords_Inr[OF assms]
  by (auto simp: comp_def vectorized_sel)


lemma filtered_tokens_in_top:
  "set (concat (map (\<lambda>r. filter_keywords top_keywords (keywords_array r)) jd)) \<subseteq> set top_keywords"
  by (auto simp: filter_keywords_def)

lemma fitted_vocabulary_untruncated:
  assumes "set xs \<subseteq> set (top_keywords_list col)"
  shows "take 262144 (frequencyDesc xs) = frequencyDesc xs"
    and "length (frequencyDesc xs) \<le> 100"
proof -
  have "card (set xs) \<le> card (set (top_keywords_list col))"
    using assms by (intro card_mono) simp_all
  also have "\<dots> \<le> length (top_keywords_list col)"
    by (rule card_length)
  also have "\<dots> \<le> 100"
    by (simp add: top_keywords_list_def)
  finally show "length (frequencyDesc xs) \<le> 100"
    by (simp add: length_frequencyDesc)
  then show "take 262144 (frequencyDesc xs) = frequencyDesc xs"
    by simp
qed

lemma CountVectorizerModel_transform_empty:
  "CountVectorizerModel_transform vocabulary [] = replicate (length vocabulary) 0"
  by (simp add: CountVectorizerModel_transform_def map_replicate_const)

lemma example_vectorize_keywords:
  "vectorize_keywords example_joined_data = Inr example_vectorized_data"
  by (simp add: example_eval)

lemma example_filtered_keywords:
  "map filtered_keywords example_vectorized_data =
     [[[115, 104, 111, 101, 115]], [[]], [[115, 104, 111, 101, 115]], [],
      [[115, 104, 111, 101, 115]]]"
  by (simp add: example_eval)

lemma example_keyword_features:
  "map keyword_features example_vectorized_data = [[1, 0], [0, 1], [1, 0], [0, 0], [1, 0]]"
  by (simp add: example_eval)

text \<open>
  What \<^verbatim>\<open>vectorize_keywords\<close> computes. When it returns, the vocabulary that
  \<^verbatim>\<open>CountVectorizer\<close> fits is made of the distinct keywords left in the filtered arrays of
  the corpus, by descending number of occurrences there; they are entries of the list of
  top keywords, at most 100. For every row, the filtered array holds the elements of the
  row's array of keywords (the split of line 61) that are entries of the list of top
  keywords, the count vector has one component for each term of the fitted vocabulary,
  the number of occurrences of the term in the filtered array, and a row whose filtered
  array is empty gets the vector of zeros. \<^verbatim>\<open>vectorize_keywords\<close> returns exactly when
  some keyword of some row is an entry of the list of top keywords.
\<close>

theorem keyword_count_vectors:
  "(vectorize_keywords jd = Inr vd \<longrightarrow>
      (\<exists>vocabulary. CountVectorizer_fit (map filtered_keywords vd) = Inr vocabulary
        \<and> distinct vocabulary
        \<and> set vocabulary = set (concat (map filtered_keywords vd))
        \<and> set vocabulary \<subseteq> set (top_keywords_list (map keywords_array vd))
        \<and> length vocabulary \<le> 100
        \<and> sorted_wrt (\<lambda>t u. count_list (concat (map filtered_keywords vd)) u
                              \<le> count_list (concat (map filtered_keywords vd)) t) vocabulary
        \<and> (\<forall>v \<in> set vd.
             filtered_keywords v
               = filter (\<lambda>x. x \<in> set (top_keywords_list (map keywords_array vd))) (keywords_array v)
             \<and> keyword_features v = map (\<lambda>t. real (count_list (filtered_keywords v) t)) vocabulary
             \<and> (filtered_keywords v = [] \<longrightarrow>
                  keyword_features v = replicate (length vocabulary) 0))))
   \<and> ((\<exists>vd. vectorize_keywords jd = Inr vd)
        = (\<exists>r \<in> set jd. \<exists>x \<in> set (keywords_array r).
             x \<in> set (top_keywords_list (map keywords_array jd))))"
proof (intro conjI impI)
  assume vd: "vectorize_keywords jd = Inr vd"
  define top where "top = top_keywords_list (map keywords_array jd)"
  define docs where "docs = map (\<lambda>r. filter_keywords top (keywords_array r)) jd"
  from vectorize_keywords_Inr[OF vd] obtain vocabulary where
    fit: "CountVectorizer_fit docs = Inr vocabulary"
    and rows: "vd = map (\<lambda>r. split_record.extend r (vectorized_record.fields
                     (filter_keywords top (keywords_array r))
                     (CountVectorizerModel_transform vocabulary
                        (filter_keywords top (keywords_array r))))) jd"
    unfolding top_def docs_def by blast
  have cols: "map keywords_array vd = map keywords_array jd" "map filtered_keywords vd = docs"
    using vectorize_keywords_columns[OF vd] unfolding top_def docs_def by simp_all
  have sub: "set (concat docs) \<subseteq> set top"
    unfolding docs_def by (rule filtered_tokens_in_top)
  have voc: "vocabulary = frequencyDesc (concat docs)"
    using CountVectorizer_fit_Inr(1)[OF fit] fitted_vocabulary_untruncated(1)[OF sub[unfolded top_def]]
    by simp
  have "\<forall>v \<in> set vd.
             filtered_keywords v = filter (\<lambda>x. x \<in> set top) (keywords_array v)
             \<and> keyword_features v = map (\<lambda>t. real (count_list (filtered_keywords v) t)) vocabulary
             \<and> (filtered_keywords v = [] \<longrightarrow>
                  keyword_features v = replicate (length vocabulary) 0)"
    unfolding rows
    by (auto simp: vectorized_sel filter_keywords_def CountVectorizerModel_transform_def
        map_replicate_const)
  moreover have "distinct vocabulary" "set vocabulary = set (concat docs)"
    unfolding voc by (simp_all add: distinct_frequencyDesc set_frequencyDesc)
  moreover have "length vocabulary \<le> 100"
    unfolding voc by (rule fitted_vocabulary_untruncated(2)[OF sub[unfolded top_def]])
  moreover have "sorted_wrt (\<lambda>t u. count_list (concat docs) u \<le> count_list (concat docs) t) vocabulary"
    unfolding voc by (rule sorted_frequencyDesc)
  ultimately show "\<exists>vocabulary. CountVectorizer_fit (map filtered_keywords vd) = Inr vocabulary
        \<and> distinct vocabulary
        \<and> set vocabulary = set (concat (map filtered_keywords vd))
        \<and> set vocabulary \<subseteq> set (top_keywords_list (map keywords_array vd))
        \<and> length vocabulary \<le> 100
        \<and> sorted_wrt (\<lambda>t u. count_list (concat (map filtered_keywords vd)) u
                              \<le> count_list (concat (map filtered_keywords vd)) t) vocabulary
        \<and> (\<forall>v \<in> set vd.
             filtered_keywords v
               = filter (\<lambda>x. x \<in> set (top_keywords_list (map keywords_array vd))) (keywords_array v)
             \<and> keyword_features v = map (\<lambda>t. real (count_list (filtered_keywords v) t)) vocabulary
             \<and> (filtered_keywords v = [] \<longrightarrow>
                  keyword_features v = replicate (length vocabulary) 0))"
    using fit sub unfolding cols top_def[symmetric] by blast
next
  define top where "top = top_keywords_list (map keywords_array jd)"
  define docs where "docs = map (\<lambda>r. filter_keywords top (keywords_array r)) jd"
  have sub: "set (concat docs) \<subseteq> set top"
    unfolding docs_def by (rule filtered_tokens_in_top)
  have "(\<exists>vd. vectorize_keywords jd = Inr vd) = (\<exists>v. CountVectorizer_fit docs = Inr v)"
    unfolding vectorize_keywords_def Let_def docs_def top_def
    by (auto simp: comp_def split: sum.splits)
  also have "\<dots> = (frequencyDesc (concat docs) \<noteq> [])"
    using fitted_vocabulary_untruncated(1)[OF sub[unfolded top_def]]
    by (auto simp: CountVectorizer_fit_def Let_def)
  also have "\<dots> = (set (concat docs) \<noteq> {})"
    using set_frequencyDesc[of "concat docs"] by (metis set_empty)
  also have "\<dots> = (\<exists>r \<in> set jd. \<exists>x \<in> set (keywords_array r). x \<in> set top)"
    unfolding docs_def by (auto simp: filter_keywords_def)
  finally show "(\<exists>vd. vectorize_keywords jd = Inr vd)
        = (\<exists>r \<in> set jd. \<exists>x \<in> set (keywords_array r).
             x \<in> set (top_keywords_list (map keywords_array jd)))"
    unfolding top_def .
qed

theorem keyword_count_vectors_example:
  "vectorize_keywords example_joined_data = Inr example_vectorized_data
   \<and> CountVectorizer_fit (map filtered_keywords example_vectorized_data)
       = Inr [[115, 104, 111, 101, 115], []]
   \<and> map filtered_keywords example_vectorized_data =
       [[[115, 104, 111, 101, 115]], [[]], [[115, 104, 111, 101, 115]], [],
        [[115, 104, 111, 101, 115]]]
   \<and> map keyword_features example_vectorized_data = [[1, 0], [0, 1], [1, 0], [0, 0], [1, 0]]
   \<and> set (concat (map filtered_keywords example_vectorized_data))
       \<subseteq> set (top_keywords_list (map keywords_array example_vectorized_data))"
proof -
  from keyword_count_vectors[of example_joined_data example_vectorized_data]
    example_vectorize_keywords
  obtain vocabulary where
    fit: "CountVectorizer_fit (map filtered_keywords example_vectorized_data) = Inr vocabulary"
    and voc: "set vocabulary = set (concat (map filtered_keywords example_vectorized_data))"
    and sub: "set vocabulary \<subseteq> set (top_keywords_list (map keywords_array example_vectorized_data))"
    by blast
  have "CountVectorizer_fit (map filtered_keywords example_vectorized_data)
          = Inr [[115, 104, 111, 101, 115], []]"
    unfolding example_filtered_keywords
    by (simp add: CountVectorizer_fit_def frequencyDesc_def)
  with fit voc sub show ?thesis
    using example_vectorize_keywords example_filtered_keywords example_keyword_features
    by simp
qed

lemma insort_key_map:
  "insort_key k (g x) (map g xs) = map g (insort_key (\<lambda>y. k (g y)) x xs)"
  by (induction xs) auto

lemma sort_key_map:
  "sort_key k (map g xs) = map g (sort_key (\<lambda>y. k (g y)) xs)"
  by (induction xs) (auto simp: insort_key_map)

lemma insort_key_cong_on:
  "f x = g x \<Longrightarrow> (\<And>y. y \<in> set ys \<Longrightarrow> f y = g y) \<Longrightarrow> insort_key f x ys = insort_key g x ys"
  by (induction ys) auto

lemma sort_key_cong_on:
  "(\<And>y. y \<in> set ys \<Longrightarrow> f y = g y) \<Longrightarrow> sort_key f ys = sort_key g ys"
proof (induction ys)
  case Nil
  show ?case by simp
next
  case (Cons y ys)
  have "sort_key f ys = sort_key g ys"
    using Cons by simp
  moreover have "insort_key f y (sort_key g ys) = insort_key g y (sort_key g ys)"
    by (rule insort_key_cong_on) (simp_all add: Cons.prems)
  ultimately show ?case by simp
qed

lemma count_list_filter: "P v \<Longrightarrow> count_list (filter P xs) v = count_list xs v"
  by (induction xs) auto

lemma frequencyDesc_filter:
  "frequencyDesc (filter P xs) = filter P (frequencyDesc xs)"
proof -
  have "sort_key (\<lambda>v. - int (count_list (filter P xs) v)) (filter P (remdups xs))
          = sort_key (\<lambda>v. - int (count_list xs v)) (filter P (remdups xs))"
    by (rule sort_key_cong_on) (simp add: count_list_filter)
  then show ?thesis
    by (simp add: frequencyDesc_def remdups_filter filter_sort)
qed

lemma filter_in_take_distinct:
  assumes "distinct xs"
  shows "filter (\<lambda>x. x \<in> set (take n xs)) xs = take n xs"
proof -
  have d: "distinct (take n xs @ drop n xs)"
    using assms by simp
  then have "set (take n xs) \<inter> set (drop n xs) = {}"
    unfolding distinct_append by blast
  then have "filter (\<lambda>x. x \<in> set (take n xs)) (drop n xs) = []"
    by (auto simp: filter_empty_conv)
  moreover have "filter (\<lambda>x. x \<in> set (take n xs)) (take n xs) = take n xs"
    by simp
  ultimately have "filter (\<lambda>x. x \<in> set (take n xs)) (take n xs @ drop n xs) = take n xs"
    unfolding filter_append by simp
  then show ?thesis by simp
qed

lemma top_keywords_list_frequencyDesc:
  "top_keywords_list col = take 100 (frequencyDesc (keywords_cleaned col))"
proof -
  have "keywords_by_count xs
          = map (\<lambda>k. (k, count_list xs k)) (sort_key (\<lambda>v. - int (count_list xs v)) (remdups xs))" for xs
    unfolding keywords_by_count_def groupBy_count_def sort_key_map by simp
  then show ?thesis
    by (simp add: top_keywords_list_def frequencyDesc_def take_map comp_def)
qed

lemma fitted_vocabulary_clean:
  assumes "\<forall>x \<in> set (concat col). clean_keyword x = x"
  shows "frequencyDesc (concat (map (filter_keywords (top_keywords_list col)) col))
           = top_keywords_list col"
proof -
  have c: "keywords_cleaned col = concat col"
    unfolding keywords_cleaned_def by (rule map_idI) (use assms in blast)
  have t: "top_keywords_list col = take 100 (frequencyDesc (concat col))"
    by (simp only: top_keywords_list_frequencyDesc c)
  have "concat (map (filter_keywords (top_keywords_list col)) col)
          = filter (\<lambda>x. x \<in> set (top_keywords_list col)) (concat col)"
    by (simp add: filter_keywords_def[abs_def] filter_concat)
  then have "frequencyDesc (concat (map (filter_keywords (top_keywords_list col)) col))
          = filter (\<lambda>x. x \<in> set (take 100 (frequencyDesc (concat col))))
              (frequencyDesc (concat col))"
    by (simp only: frequencyDesc_filter t)
  also have "\<dots> = take 100 (frequencyDesc (concat col))"
    by (rule filter_in_take_distinct) (rule distinct_frequencyDesc)
  finally show ?thesis
    by (simp only: t)
qed

text \<open>
  On a corpus in which cleaning leaves every keyword as it is, the vocabulary that is
  fitted is the list of top keywords, the filtered array of a row holds its cleaned
  keywords that are entries of that list, and the count vector counts them over that
  list, in its order.
\<close>

theorem vectorize_keywords_clean_corpus:
  assumes "\<forall>r \<in> set jd. \<forall>x \<in> set (keywords_array r). clean_keyword x = x"
    and "vectorize_keywords jd = Inr vd"
  shows "CountVectorizer_fit (map filtered_keywords vd)
           = Inr (top_keywords_list (map keywords_array jd))
    \<and> (\<forall>v \<in> set vd.
          filtered_keywords v
            = filter (\<lambda>x. x \<in> set (top_keywords_list (map keywords_array jd)))
                (map clean_keyword (keywords_array v))
          \<and> keyword_features v
            = map (\<lambda>t. real (count_list (filtered_keywords v) t))
                (top_keywords_list (map keywords_array jd)))"
proof -
  define top where "top = top_keywords_list (map keywords_array jd)"
  have cols: "map keywords_array vd = map keywords_array jd"
    "map filtered_keywords vd = map (filter_keywords top) (map keywords_array jd)"
    using vectorize_keywords_columns(1,2)[OF assms(2)] unfolding top_def by (simp_all add: comp_def)
  have clean: "\<forall>x \<in> set (concat (map keywords_array jd)). clean_keyword x = x"
    using assms(1) by auto
  from keyword_count_vectors[of jd vd] assms(2) obtain vocabulary where
    fit: "CountVectorizer_fit (map filtered_keywords vd) = Inr vocabulary"
    and rows: "\<forall>v \<in> set vd.
             filtered_keywords v = filter (\<lambda>x. x \<in> set top) (keywords_array v)
             \<and> keyword_features v = map (\<lambda>t. real (count_list (filtered_keywords v) t)) vocabulary"
    unfolding cols(1) top_def by blast
  have "set (concat (map (filter_keywords top) (map keywords_array jd))) \<subseteq> set top"
    by (auto simp: filter_keywords_def)
  from fitted_vocabulary_untruncated(1)[OF this[unfolded top_def]]
  have "vocabulary = frequencyDesc (concat (map (filter_keywords top) (map keywords_array jd)))"
    using CountVectorizer_fit_Inr(1)[OF fit] unfolding cols(2) top_def by simp
  then have voc: "vocabulary = top"
    unfolding top_def using fitted_vocabulary_clean[OF clean] by simp
  have "map clean_keyword (keywords_array v) = keywords_array v" if "v \<in> set vd" for v
  proof -
    from that have "keywords_array v \<in> set (map keywords_array vd)"
      by simp
    then obtain r where "r \<in> set jd" "keywords_array v = keywords_array r"
      unfolding cols(1) by auto
    with assms(1) have "\<forall>x \<in> set (keywords_array v). clean_keyword x = x"
      by simp
    then show ?thesis
      by (intro map_idI) blast
  qed
  with rows fit show ?thesis
    unfolding voc top_def by simp
qed

lemma example_clean_corpus:
  "vectorize_keywords (projr (preprocess_data example_rankings example_keywords_clean))
     = Inr (projr (vectorize_keywords
              (projr (preprocess_data example_rankings example_keywords_clean))))"
  "map keywords_array (projr (preprocess_data example_rankings example_keywords_clean))
     = [[[]], [[115, 104, 111, 101, 115]]]"
  "top_keywords_list
     (map keywords_array (projr (preprocess_data example_rankings example_keywords_clean)))
     = [[], [115, 104, 111, 101, 115]]"
  by (simp_all add: example_keywords_clean_def example_eval)

theorem vectorize_keywords_clean_corpus_example:
  "map keywords_array (projr (preprocess_data example_rankings example_keywords_clean))
     = [[[]], [[115, 104, 111, 101, 115]]]
   \<and> clean_keyword [] = [] \<and> clean_keyword [115, 104, 111, 101, 115] = [115, 104, 111, 101, 115]
   \<and> CountVectorizer_fit (map filtered_keywords (projr (vectorize_keywords
         (projr (preprocess_data example_rankings example_keywords_clean)))))
       = Inr [[], [115, 104, 111, 101, 115]]"
proof -
  have c: "clean_keyword [] = []"
    "clean_keyword [115, 104, 111, 101, 115] = [115, 104, 111, 101, 115]"
    by (simp_all add: clean_keyword_def lower_cp_def keep_cp_def)
  have "\<forall>r \<in> set (projr (preprocess_data example_rankings example_keywords_clean)).
          \<forall>x \<in> set (keywords_array r). clean_keyword x = x"
  proof
    fix r assume "r \<in> set (projr (preprocess_data example_rankings example_keywords_clean))"
    then have "keywords_array r
                 \<in> set (map keywords_array
                     (projr (preprocess_data example_rankings example_keywords_clean)))"
      by simp
    then show "\<forall>x \<in> set (keywords_array r). clean_keyword x = x"
      unfolding example_clean_corpus(2) using c by auto
  qed
  from vectorize_keywords_clean_corpus[OF this example_clean_corpus(1)]
  show ?thesis
    using c example_clean_corpus(2,3) by simp
qed

text \<open>
  Claim C5. Every row's cleaned keywords are filtered to the entries of the list of top
  keywords, and counted in a vector over that list. The code does so on a corpus of clean
  keywords only. On the example it does not: the keywords of product 1 are \<^verbatim>\<open>Nike\<close> and
  \<^verbatim>\<open>shoes\<close>; cleaned, both are entries of the list of top keywords, which has three
  entries. The filtered array of the row holds \<^verbatim>\<open>shoes\<close> only, since line 88 filters the
  keywords as they are written and \<^verbatim>\<open>Nike\<close> is no entry, and the count vector of the row
  has two components.
\<close>

theorem keyword_filter_misses_cleaned_keywords:
  "keywords_array (hd example_vectorized_data)
     = [[78, 105, 107, 101], [115, 104, 111, 101, 115]]
   \<and> filter_keywords (top_keywords_list (map keywords_array example_joined_data))
        (map clean_keyword (keywords_array (hd example_vectorized_data)))
     = [[110, 105, 107, 101], [115, 104, 111, 101, 115]]
   \<and> filtered_keywords (hd example_vectorized_data) = [[115, 104, 111, 101, 115]]
   \<and> length (top_keywords_list (map keywords_array example_joined_data)) = 3
   \<and> length (keyword_features (hd example_vectorized_data)) = 2"
proof -
  have ne: "example_vectorized_data \<noteq> []"
    using example_keyword_features by auto
  have k: "keywords_array (hd example_vectorized_data)
             = [[78, 105, 107, 101], [115, 104, 111, 101, 115]]"
    by (simp add: example_eval)
  have "filtered_keywords (hd example_vectorized_data)
          = hd (map filtered_keywords example_vectorized_data)"
    and "keyword_features (hd example_vectorized_data)
          = hd (map keyword_features example_vectorized_data)"
    using ne by (simp_all add: hd_map)
  then show ?thesis
    unfolding k example_top_keywords_list example_filtered_keywords example_keyword_features
    by (simp add: filter_keywords_def clean_keyword_def lower_cp_def keep_cp_def)
qed

section \<open>Product identifiers and labels through the pipeline\<close>

lemma encode_row_keeps:
  assumes "encode_row bl cl r = Inr e"
  shows "productId e = productId r" "recommend e = recommend r" "category e = category r"
    "keywords_string e = keywords_string r"
  using assms
  by (auto simp: encode_row_def StringIndexer_transform_def joined_record.defs encoded_record.defs
      split: option.splits)

lemma preprocess_data_keeps:
  assumes "preprocess_data rs kws = Inr jd"
  shows "map productId jd = map productId (joined_rows rs kws)"
    and "map recommend jd = map recommend (joined_rows rs kws)"
    and "map category jd = map category (joined_rows rs kws)"
proof -
  note r = preprocess_data_rows[OF assms]
  have "list_all2 (\<lambda>j r. productId r = productId j \<and> recommend r = recommend j
                          \<and> category r = category j) (joined_rows rs kws) jd"
    by (rule list_all2_mono[OF r]) (auto simp: with_keywords_array_sel encode_row_keeps)
  then show "map productId jd = map productId (joined_rows rs kws)"
    and "map recommend jd = map recommend (joined_rows rs kws)"
    and "map category jd = map category (joined_rows rs kws)"
    by (induction rule: list_all2_induct) auto
qed

lemma product_rankings_labelled_productId:
  "map lb_productId (product_rankings_labelled rs) = remdups (map rk_productId rs)"
  using dedup_rankings_productId[of rs]
  by (simp add: product_rankings_labelled_def drop_ranking_def with_recommend_def comp_def)



lemma length_filter_key_le_1:
  "distinct (map f xs) \<Longrightarrow> length (filter (\<lambda>k. f k = p) xs) \<le> 1"
proof (induction xs)
  case Nil
  show ?case by simp
next
  case (Cons a xs)
  show ?case
  proof (cases "f a = p")
    case True
    with Cons.prems have "p \<notin> f ` set xs" by auto
    then have "filter (\<lambda>k. f k = p) xs = []"
      by (auto simp: filter_empty_conv)
    with True show ?thesis by simp
  next
    case False
    with Cons show ?thesis by auto
  qed
qed

lemma join_productId_subset:
  "set (map (\<lambda>p. lb_productId (fst p)) (join_on_productId ls ks)) \<subseteq> set (map lb_productId ls)"
  by (auto simp: join_on_productId_def)

lemma distinct_join_on_productId:
  assumes "distinct (map kw_productId ks)"
  shows "distinct (map lb_productId ls) \<Longrightarrow>
         distinct (map (\<lambda>p. lb_productId (fst p)) (join_on_productId ls ks))"
proof (induction ls)
  case Nil
  show ?case by (simp add: join_on_productId_def)
next
  case (Cons l ls)
  have split: "join_on_productId (l # ls) ks
      = map (\<lambda>k. (l, k)) (filter (\<lambda>k. kw_productId k = lb_productId l) ks) @ join_on_productId ls ks"
    by (simp add: join_on_productId_def)
  have "length (filter (\<lambda>k. kw_productId k = lb_productId l) ks) \<le> 1"
    using assms by (rule length_filter_key_le_1)
  then have one: "distinct (map (\<lambda>p. lb_productId (fst p))
                    (map (\<lambda>k. (l, k)) (filter (\<lambda>k. kw_productId k = lb_productId l) ks)))"
    by (cases "filter (\<lambda>k. kw_productId k = lb_productId l) ks") auto
  have rest: "distinct (map (\<lambda>p. lb_productId (fst p)) (join_on_productId ls ks))"
    using Cons by simp
  have "lb_productId l \<notin> set (map (\<lambda>p. lb_productId (fst p)) (join_on_productId ls ks))"
    using Cons.prems join_productId_subset[of ls ks] by auto
  then have disj: "set (map (\<lambda>p. lb_productId (fst p))
                    (map (\<lambda>k. (l, k)) (filter (\<lambda>k. kw_productId k = lb_productId l) ks)))
               \<inter> set (map (\<lambda>p. lb_productId (fst p)) (join_on_productId ls ks)) = {}"
    by auto
  show ?case
    unfolding split map_append distinct_append using one rest disj by blast
qed

lemma joined_rows_productId:
  "map productId (joined_rows rs kws)
     = map (\<lambda>p. lb_productId (fst p)) (join_on_productId (product_rankings_labelled rs) kws)"
  by (simp add: joined_rows_def fillna_def comp_def case_prod_beta)

lemma distinct_joined_rows:
  assumes "distinct (map kw_productId kws)"
  shows "distinct (map productId (joined_rows rs kws))"
  unfolding joined_rows_productId
  using assms by (rule distinct_join_on_productId) (simp add: product_rankings_labelled_productId)

section \<open>Splitting and training\<close>

lemma set_numbered_subset: "set (map snd (filter Q (zip ns rows))) \<subseteq> set rows"
proof
  fix x assume "x \<in> set (map snd (filter Q (zip ns rows)))"
  then obtain i where "(i, x) \<in> set (zip ns rows)" by auto
  then show "x \<in> set rows" by (rule set_zip_rightD)
qed

lemma randomSplit_subset:
  "set (fst (randomSplit draw seed rows)) \<subseteq> set rows"
  "set (snd (randomSplit draw seed rows)) \<subseteq> set rows"
  unfolding randomSplit_def Let_def fst_conv snd_conv by (rule set_numbered_subset)+

lemma distinct_map_numbered:
  "distinct (map f rows) \<Longrightarrow> distinct (map f (map snd (filter Q (zip ns rows))))"
proof (induction rows arbitrary: ns)
  case Nil
  show ?case by simp
next
  case (Cons r rows)
  show ?case
  proof (cases ns)
    case Nil
    then show ?thesis by simp
  next
    case ns: (Cons n ns')
    have rest: "distinct (map f (map snd (filter Q (zip ns' rows))))"
      using Cons.IH Cons.prems by simp
    have "f r \<notin> f ` set rows"
      using Cons.prems by simp
    then have "f r \<notin> f ` set (map snd (filter Q (zip ns' rows)))"
      using set_numbered_subset[of Q ns' rows] by blast
    then have "f r \<notin> set (map f (map snd (filter Q (zip ns' rows))))"
      unfolding set_map[of f] .
    with rest show ?thesis
      unfolding ns by (cases "Q (n, r)") simp_all
  qed
qed

lemma randomSplit_distinct:
  assumes "distinct (map f rows)"
  shows "distinct (map f (fst (randomSplit draw seed rows)))"
    and "distinct (map f (snd (randomSplit draw seed rows)))"
  unfolding randomSplit_def Let_def fst_conv snd_conv
  by (rule distinct_map_numbered[OF assms])+


text \<open>With numbers drawn in the unit interval every row goes to exactly one part.\<close>

lemma randomSplit_partition:
  assumes "\<forall>i. 0 \<le> draw seed i \<and> draw seed i < 1"
  shows "length (fst (randomSplit draw seed rows)) + length (snd (randomSplit draw seed rows))
           = length rows"
proof -
  define xs where "xs = zip [0 ..< length rows] rows"
  have eq: "filter (\<lambda>(i, r). 7 / 10 \<le> draw seed i \<and> draw seed i < 1) xs
          = filter (\<lambda>p. \<not> (case p of (i, r) \<Rightarrow> 0 \<le> draw seed i \<and> draw seed i < 7 / 10)) xs"
    using assms by (intro filter_cong refl) (auto simp: not_less)
  have "length xs = length rows"
    by (simp add: xs_def)
  then show ?thesis
    using sum_length_filter_compl[of "\<lambda>(i, r). 0 \<le> draw seed i \<and> draw seed i < 7 / 10" xs]
    unfolding randomSplit_def Let_def fst_conv snd_conv length_map xs_def[symmetric] eq
    by simp
qed

lemma train_model_Inr_iff: "(\<exists>m. train_model learn data = Inr m) = (data \<noteq> [])"
  by (simp add: train_model_def)

lemma train_model_cases:
  "train_model learn data = Inl EmptyDataset \<and> data = []
   \<or> (\<exists>m. train_model learn data = Inr m) \<and> data \<noteq> []"
  by (simp add: train_model_def)

lemma train_models_unfold:
  "train_models learn draw vd =
     (if fst (randomSplit draw 42 (filter (\<lambda>r. category r = ''clothes_top'') vd)) = []
         \<or> fst (randomSplit draw 42 (filter (\<lambda>r. category r = ''pants'') vd)) = []
         \<or> fst (randomSplit draw 42 (filter (\<lambda>r. category r = ''shoes'') vd)) = []
         \<or> fst (randomSplit draw 42 (filter (\<lambda>r. category r = ''outers'') vd)) = []
      then Inl EmptyDataset
      else Inr \<lparr>clothes_top_data_train =
                  fst (randomSplit draw 42 (filter (\<lambda>r. category r = ''clothes_top'') vd)),
                clothes_top_data_test =
                  snd (randomSplit draw 42 (filter (\<lambda>r. category r = ''clothes_top'') vd)),
                pants_data_train = fst (randomSplit draw 42 (filter (\<lambda>r. category r = ''pants'') vd)),
                pants_data_test = snd (randomSplit draw 42 (filter (\<lambda>r. category r = ''pants'') vd)),
                shoes_data_train = fst (randomSplit draw 42 (filter (\<lambda>r. category r = ''shoes'') vd)),
                shoes_data_test = snd (randomSplit draw 42 (filter (\<lambda>r. category r = ''shoes'') vd)),
                outers_data_train = fst (randomSplit draw 42 (filter (\<lambda>r. category r = ''outers'') vd)),
                outers_data_test = snd (randomSplit draw 42 (filter (\<lambda>r. category r = ''outers'') vd)),
                clothes_top_model = learn (map (\<lambda>r. (VectorAssembler_transform r, recommend r))
                  (fst (randomSplit draw 42 (filter (\<lambda>r. category r = ''clothes_top'') vd)))),
                pants_model = learn (map (\<lambda>r. (VectorAssembler_transform r, recommend r))
                  (fst (randomSplit draw 42 (filter (\<lambda>r. category r = ''pants'') vd)))),
                shoes_model = learn (map (\<lambda>r. (VectorAssembler_transform r, recommend r))
                  (fst (randomSplit draw 42 (filter (\<lambda>r. category r = ''shoes'') vd)))),
                outers_model = learn (map (\<lambda>r. (VectorAssembler_transform r, recommend r))
                  (fst (randomSplit draw 42 (filter (\<lambda>r. category r = ''outers'') vd))))\<rparr>)"
  by (simp add: train_models_def Let_def train_model_def)

lemma train_models_Inr:
  assumes "train_models learn draw vd = Inr t"
  shows "clothes_top_data_test t = snd (randomSplit draw 42 (filter (\<lambda>r. category r = ''clothes_top'') vd))"
    "pants_data_test t = snd (randomSplit draw 42 (filter (\<lambda>r. category r = ''pants'') vd))"
    "shoes_data_test t = snd (randomSplit draw 42 (filter (\<lambda>r. category r = ''shoes'') vd))"
    "outers_data_test t = snd (randomSplit draw 42 (filter (\<lambda>r. category r = ''outers'') vd))"
    "clothes_top_data_train t = fst (randomSplit draw 42 (filter (\<lambda>r. category r = ''clothes_top'') vd))"
    "pants_data_train t = fst (randomSplit draw 42 (filter (\<lambda>r. category r = ''pants'') vd))"
    "shoes_data_train t = fst (randomSplit draw 42 (filter (\<lambda>r. category r = ''shoes'') vd))"
    "outers_data_train t = fst (randomSplit draw 42 (filter (\<lambda>r. category r = ''outers'') vd))"
    "clothes_top_data_train t \<noteq> []" "pants_data_train t \<noteq> []"
    "shoes_data_train t \<noteq> []" "outers_data_train t \<noteq> []"
  using assms unfolding train_models_unfold
  by (auto split: if_splits)




lemma example_vectorized_columns:
  "map productId example_vectorized_data = [1, 2, 3, 4, 5]"
  "map category example_vectorized_data
     = [''shoes'', ''shoes'', ''pants'', ''clothes_top'', ''outers'']"
  "map recommend example_vectorized_data = [0, 1, 1, 1, 0]"
  by (simp_all add: example_eval)

lemma example_train_models:
  "train_models example_learn example_draw example_vectorized_data = Inr example_trained"
  by (simp add: example_trained_def example_eval)

lemma example_test_data:
  "map productId (clothes_top_data_test example_trained) = []"
  "map productId (pants_data_test example_trained) = []"
  "map productId (shoes_data_test example_trained) = [2]"
  "map productId (outers_data_test example_trained) = []"
  by (simp_all add: example_trained_def example_eval)


section \<open>The confusion counts\<close>






lemma test_data_category:
  assumes "train_models learn draw vd = Inr t"
  shows "set (clothes_top_data_test t) \<subseteq> set vd" "set (pants_data_test t) \<subseteq> set vd"
    "set (shoes_data_test t) \<subseteq> set vd" "set (outers_data_test t) \<subseteq> set vd"
    "\<forall>r \<in> set (clothes_top_data_test t). category r = ''clothes_top''"
    "\<forall>r \<in> set (pants_data_test t). category r = ''pants''"
    "\<forall>r \<in> set (shoes_data_test t). category r = ''shoes''"
    "\<forall>r \<in> set (outers_data_test t). category r = ''outers''"
  unfolding train_models_Inr[OF assms]
  using randomSplit_subset(2)[of draw 42 "filter (\<lambda>r. category r = ''clothes_top'') vd"]
    randomSplit_subset(2)[of draw 42 "filter (\<lambda>r. category r = ''pants'') vd"]
    randomSplit_subset(2)[of draw 42 "filter (\<lambda>r. category r = ''shoes'') vd"]
    randomSplit_subset(2)[of draw 42 "filter (\<lambda>r. category r = ''outers'') vd"]
  by auto






section \<open>A category without rows\<close>










section \<open>One prediction per product\<close>

lemma distinct_vectorized:
  assumes "distinct (map kw_productId kws)"
    and "preprocess_data rs kws = Inr jd" and "vectorize_keywords jd = Inr vd"
  shows "distinct (map productId vd)"
  unfolding vectorize_keywords_columns(3)[OF assms(3)] preprocess_data_keeps(1)[OF assms(2)]
  using assms(1) by (rule distinct_joined_rows)

lemma predict_recommendation_productId:
  "map pr_productId (predict_recommendation test m) = map productId test"
  by (simp add: predict_recommendation_def comp_def)

lemma distinct_tests:
  assumes "distinct (map productId vd)" and "train_models learn draw vd = Inr t"
  shows "distinct (map productId
           (clothes_top_data_test t @ pants_data_test t @ shoes_data_test t @ outers_data_test t))"
proof -
  note cat = test_data_category[OF assms(2)]
  have d: "distinct (map productId (snd (randomSplit draw 42 (filter (\<lambda>r. category r = c) vd))))" for c
    by (rule randomSplit_distinct(2)) (rule distinct_map_filter[OF assms(1)])
  have each: "distinct (clothes_top_data_test t)" "distinct (pants_data_test t)"
    "distinct (shoes_data_test t)" "distinct (outers_data_test t)"
    unfolding train_models_Inr[OF assms(2)] using d distinct_map by blast+
  have disj: "set (clothes_top_data_test t) \<inter> set (pants_data_test t) = {}"
    "set (clothes_top_data_test t) \<inter> set (shoes_data_test t) = {}"
    "set (clothes_top_data_test t) \<inter> set (outers_data_test t) = {}"
    "set (pants_data_test t) \<inter> set (shoes_data_test t) = {}"
    "set (pants_data_test t) \<inter> set (outers_data_test t) = {}"
    "set (shoes_data_test t) \<inter> set (outers_data_test t) = {}"
    using cat(5-8) by fastforce+
  have all: "distinct (clothes_top_data_test t @ pants_data_test t @ shoes_data_test t
               @ outers_data_test t)"
    using each disj by auto
  have "inj_on productId (set vd)"
    using assms(1) by (simp add: distinct_map)
  moreover have "set (clothes_top_data_test t @ pants_data_test t @ shoes_data_test t
               @ outers_data_test t) \<subseteq> set vd"
    using cat(1-4) by auto
  ultimately have "inj_on productId (set (clothes_top_data_test t @ pants_data_test t
               @ shoes_data_test t @ outers_data_test t))"
    by (rule inj_on_subset)
  with all show ?thesis
    unfolding distinct_map by blast
qed

lemma numbered_row:
  "(i, x) \<in> set (zip [0 ..< length rows] rows) \<Longrightarrow> i < length rows \<and> rows ! i = x"
  by (auto simp: set_zip)

lemma randomSplit_disjoint:
  assumes "distinct rows"
  shows "set (fst (randomSplit draw seed rows)) \<inter> set (snd (randomSplit draw seed rows)) = {}"
proof -
  have False
    if a: "x \<in> set (fst (randomSplit draw seed rows))"
      and b: "x \<in> set (snd (randomSplit draw seed rows))" for x
  proof -
    from a obtain i where i: "(i, x) \<in> set (zip [0 ..< length rows] rows)"
      "draw seed i < 7 / 10"
      by (auto simp: randomSplit_def Let_def)
    from b obtain j where j: "(j, x) \<in> set (zip [0 ..< length rows] rows)"
      "7 / 10 \<le> draw seed j"
      by (auto simp: randomSplit_def Let_def)
    from numbered_row[OF i(1)] numbered_row[OF j(1)]
    have "i < length rows" "j < length rows" "rows ! i = rows ! j"
      by simp_all
    with assms have "i = j"
      using nth_eq_iff_index_eq by blast
    with i(2) j(2) show False by simp
  qed
  then show ?thesis by blast
qed

lemma distinct_of_distinct_map: "distinct (map f xs) \<Longrightarrow> distinct xs"
  by (simp add: distinct_map)

text \<open>
  Claim C10. When the table of keywords has one row per product identifier, and the
  first three methods have succeeded, every product identifier appears at most once in
  the joined data, in the vectorized data, in the union of the four prediction tables and
  in the rows that \<^verbatim>\<open>save_results\<close> writes. The two parts of a split of the rows of a
  category have no row in common and, the numbers drawn being in the unit interval, hold
  all the rows between them.
\<close>

theorem productId_once_in_predictions:
  assumes "distinct (map kw_productId kws)"
    and "preprocess_data rs kws = Inr jd"
    and "vectorize_keywords jd = Inr vd"
    and "train_models learn draw vd = Inr t"
  shows "distinct (map productId jd) \<and> distinct (map productId vd)
    \<and> (\<forall>c. set (fst (randomSplit draw 42 (filter (\<lambda>r. category r = c) vd)))
             \<inter> set (snd (randomSplit draw 42 (filter (\<lambda>r. category r = c) vd))) = {})
    \<and> ((\<forall>i. 0 \<le> draw 42 i \<and> draw 42 i < 1) \<longrightarrow>
         (\<forall>c. length (fst (randomSplit draw 42 (filter (\<lambda>r. category r = c) vd)))
              + length (snd (randomSplit draw 42 (filter (\<lambda>r. category r = c) vd)))
              = length (filter (\<lambda>r. category r = c) vd)))
    \<and> distinct (map pr_productId
         (union_predictions (clothes_top_predictions_result (predict_and_evaluate round2 t))
            (pants_predictions_result (predict_and_evaluate round2 t))
            (shoes_predictions_result (predict_and_evaluate round2 t))
            (outers_predictions_result (predict_and_evaluate round2 t))))
    \<and> distinct (map pr_productId
         (csv_rows (save_results output_dir (predict_and_evaluate round2 t))))"
proof -
  have jd: "distinct (map productId jd)"
    unfolding preprocess_data_keeps(1)[OF assms(2)] using assms(1) by (rule distinct_joined_rows)
  have vd: "distinct (map productId vd)"
    using assms(1-3) by (rule distinct_vectorized)
  have "distinct (filter (\<lambda>r. category r = c) vd)" for c
    using distinct_of_distinct_map[OF vd] by simp
  then have disj: "\<forall>c. set (fst (randomSplit draw 42 (filter (\<lambda>r. category r = c) vd)))
             \<inter> set (snd (randomSplit draw 42 (filter (\<lambda>r. category r = c) vd))) = {}"
    using randomSplit_disjoint by blast
  have part: "(\<forall>i. 0 \<le> draw 42 i \<and> draw 42 i < 1) \<longrightarrow>
         (\<forall>c. length (fst (randomSplit draw 42 (filter (\<lambda>r. category r = c) vd)))
              + length (snd (randomSplit draw 42 (filter (\<lambda>r. category r = c) vd)))
              = length (filter (\<lambda>r. category r = c) vd))"
    using randomSplit_partition by blast
  have "distinct (map pr_productId
         (predict_recommendation (clothes_top_data_test t) (clothes_top_model t)
          @ predict_recommendation (pants_data_test t) (pants_model t)
          @ predict_recommendation (shoes_data_test t) (shoes_model t)
          @ predict_recommendation (outers_data_test t) (outers_model t)))"
    using distinct_tests[OF vd assms(4)]
    by (simp only: map_append predict_recommendation_productId)
  then have "distinct (map pr_productId
         (union_predictions (clothes_top_predictions_result (predict_and_evaluate round2 t))
            (pants_predictions_result (predict_and_evaluate round2 t))
            (shoes_predictions_result (predict_and_evaluate round2 t))
            (outers_predictions_result (predict_and_evaluate round2 t))))
    \<and> distinct (map pr_productId
         (csv_rows (save_results output_dir (predict_and_evaluate round2 t))))"
    by (simp add: predict_and_evaluate_def Let_def union_predictions_def save_results_def)
  with jd vd disj part show ?thesis
    by blast
qed

theorem productId_once_in_predictions_witness:
  "distinct (map kw_productId example_keywords)
   \<and> map productId example_vectorized_data = [1, 2, 3, 4, 5]
   \<and> map productId (shoes_data_train example_trained) = [1]
   \<and> map productId (shoes_data_test example_trained) = [2]
   \<and> length (fst (randomSplit example_draw 42
               (filter (\<lambda>r. category r = ''shoes'') example_vectorized_data)))
       + length (snd (randomSplit example_draw 42
               (filter (\<lambda>r. category r = ''shoes'') example_vectorized_data)))
       = length (filter (\<lambda>r. category r = ''shoes'') example_vectorized_data)
   \<and> map pr_productId
        (csv_rows (save_results ''./data/output/'' (predict_and_evaluate (\<lambda>x. x) example_trained)))
       = [2]
   \<and> distinct (map pr_productId
        (csv_rows (save_results ''./data/output/'' (predict_and_evaluate (\<lambda>x. x) example_trained))))"
proof -
  have d: "distinct (map kw_productId example_keywords)"
    by (simp add: example_defs)
  have r: "\<forall>i. 0 \<le> example_draw 42 i \<and> example_draw 42 i < 1"
    by (simp add: example_draw_def)
  have "map pr_productId
        (csv_rows (save_results ''./data/output/'' (predict_and_evaluate (\<lambda>x. x) example_trained)))
       = [2]"
    using example_test_data
    by (simp add: save_results_def predict_and_evaluate_def Let_def union_predictions_def
        predict_recommendation_productId)
  moreover have "map productId (shoes_data_train example_trained) = [1]"
    by (simp add: example_trained_def example_eval)
  moreover note productId_once_in_predictions[OF d example_preprocess_data
      example_vectorize_keywords example_train_models, of "\<lambda>x. x" "''./data/output/''"]
  ultimately show ?thesis
    using d r example_vectorized_columns(1) example_test_data(3)
    by blast
qed

section \<open>The ranking and the feature vectors\<close>

lemma hd_sorted_partition_map:
  assumes "filter (\<lambda>r. rk_productId r = p) rs \<noteq> []"
  shows "(\<lambda>r. (rk_productId r, rk_date r))
           (hd (sort_key (\<lambda>r. - rk_date r) (filter (\<lambda>r. rk_productId r = p) rs)))
         = hd (sort_key (\<lambda>q. - snd q) (filter (\<lambda>q. fst q = p)
                 (map (\<lambda>r. (rk_productId r, rk_date r)) rs)))"
proof -
  have ne: "sort_key (\<lambda>r. - rk_date r) (filter (\<lambda>r. rk_productId r = p) rs) \<noteq> []"
    using assms by (metis length_sort length_0_conv)
  have "sort_key (\<lambda>q. - snd q) (filter (\<lambda>q. fst q = p) (map (\<lambda>r. (rk_productId r, rk_date r)) rs))
        = map (\<lambda>r. (rk_productId r, rk_date r))
            (sort_key (\<lambda>r. - rk_date r) (filter (\<lambda>r. rk_productId r = p) rs))"
    by (simp add: filter_map comp_def sort_key_map)
  then show ?thesis
    using ne by (simp add: hd_map)
qed

lemma dedup_rankings_key:
  "map (\<lambda>r. (rk_productId r, rk_date r)) (dedup_rankings rs)
     = map (\<lambda>p. hd (sort_key (\<lambda>q. - snd q) (filter (\<lambda>q. fst q = p)
                      (map (\<lambda>r. (rk_productId r, rk_date r)) rs))))
           (remdups (map fst (map (\<lambda>r. (rk_productId r, rk_date r)) rs)))"
proof -
  have "filter (\<lambda>r. rk_productId r = p) rs \<noteq> []" if "p \<in> set (remdups (map rk_productId rs))" for p
    using that by (auto simp: filter_empty_conv)
  then have "map (\<lambda>p. (\<lambda>r. (rk_productId r, rk_date r))
                   (hd (sort_key (\<lambda>r. - rk_date r) (filter (\<lambda>r. rk_productId r = p) rs))))
               (remdups (map rk_productId rs))
           = map (\<lambda>p. hd (sort_key (\<lambda>q. - snd q) (filter (\<lambda>q. fst q = p)
                      (map (\<lambda>r. (rk_productId r, rk_date r)) rs))))
               (remdups (map rk_productId rs))"
    by (intro map_cong refl hd_sorted_partition_map) blast
  then show ?thesis
    by (simp add: dedup_rankings_hd comp_def)
qed

lemma map_pair_zip: "map (\<lambda>r. (f r, g r)) xs = zip (map f xs) (map g xs)"
  by (induction xs) auto

lemma dedup_rankings_same_key:
  assumes "map rk_productId rs = map rk_productId rs'" and "map rk_date rs = map rk_date rs'"
  shows "map (\<lambda>r. (rk_productId r, rk_date r)) (dedup_rankings rs)
           = map (\<lambda>r. (rk_productId r, rk_date r)) (dedup_rankings rs')"
proof -
  have "map (\<lambda>r. (rk_productId r, rk_date r)) rs = map (\<lambda>r. (rk_productId r, rk_date r)) rs'"
    unfolding map_pair_zip assms ..
  then show ?thesis
    by (simp only: dedup_rankings_key)
qed

lemma labelled_same_key:
  assumes "map rk_productId rs = map rk_productId rs'" and "map rk_date rs = map rk_date rs'"
  shows "map (lb_recommend_update (\<lambda>_. 0)) (product_rankings_labelled rs)
           = map (lb_recommend_update (\<lambda>_. 0)) (product_rankings_labelled rs')"
proof -
  have "map (lb_recommend_update (\<lambda>_. 0)) (product_rankings_labelled xs)
          = map (\<lambda>q. \<lparr>lb_productId = fst q, lb_date = snd q, lb_recommend = 0\<rparr>)
              (map (\<lambda>r. (rk_productId r, rk_date r)) (dedup_rankings xs))" for xs
    by (simp add: product_rankings_labelled_def drop_ranking_def with_recommend_def comp_def)
  then show ?thesis
    by (simp only: dedup_rankings_same_key[OF assms])
qed

lemma join_on_productId_erase:
  "join_on_productId (map (lb_recommend_update (\<lambda>_. 0)) ls) ks
     = map (\<lambda>p. (lb_recommend_update (\<lambda>_. 0) (fst p), snd p)) (join_on_productId ls ks)"
  by (induction ls) (simp_all add: join_on_productId_def comp_def)

lemma fillna_erase:
  "fillna (lb_recommend_update (\<lambda>_. 0) l, k) = recommend_update (\<lambda>_. 0) (fillna (l, k))"
  by (simp add: fillna_def)

lemma joined_rows_same_key:
  assumes "map rk_productId rs = map rk_productId rs'" and "map rk_date rs = map rk_date rs'"
  shows "map (recommend_update (\<lambda>_. 0)) (joined_rows rs kws)
           = map (recommend_update (\<lambda>_. 0)) (joined_rows rs' kws)"
proof -
  have "map (recommend_update (\<lambda>_. 0)) (joined_rows xs kws)
          = map fillna (join_on_productId
              (map (lb_recommend_update (\<lambda>_. 0)) (product_rankings_labelled xs)) kws)" for xs
    by (simp add: joined_rows_def join_on_productId_erase comp_def fillna_erase)
  then show ?thesis
    using labelled_same_key[OF assms] by simp
qed

lemma traverse_map_commute:
  assumes "\<And>x. f (g x) = map_sum id h (f x)"
  shows "traverse f (map g xs) = map_sum id (map h) (traverse f xs)"
proof (induction xs)
  case Nil
  show ?case by simp
next
  case (Cons x xs)
  show ?case
  proof (cases "f x")
    case (Inl e)
    then show ?thesis by (simp add: assms)
  next
    case (Inr y)
    then show ?thesis
      using Cons by (cases "traverse f xs") (simp_all add: assms)
  qed
qed

lemma encode_row_erase:
  "encode_row bl cl (recommend_update (\<lambda>_. 0) r)
     = map_sum id (recommend_update (\<lambda>_. 0)) (encode_row bl cl r)"
  by (simp add: encode_row_def joined_record.defs encoded_record.defs split: sum.splits)

lemma encoder_pipeline_erase:
  "encoder_pipeline (map (recommend_update (\<lambda>_. 0)) jd)
     = map_sum id (map (recommend_update (\<lambda>_. 0))) (encoder_pipeline jd)"
proof -
  have cols: "map brandName (map (recommend_update (\<lambda>_. 0)) jd) = map brandName jd"
    "map colors (map (recommend_update (\<lambda>_. 0)) jd) = map colors jd"
    by (simp_all add: comp_def)
  show ?thesis
    unfolding encoder_pipeline_def cols
    by (rule traverse_map_commute[where h = "recommend_update (\<lambda>_. 0)"]) (rule encode_row_erase)
qed

lemma with_keywords_array_erase:
  "with_keywords_array (recommend_update (\<lambda>_. 0) r)
     = recommend_update (\<lambda>_. 0) (with_keywords_array r)"
  by (simp add: with_keywords_array_def encoded_record.defs split_record.defs)

lemma encode_and_split_erase:
  "encode_and_split (map (recommend_update (\<lambda>_. 0)) jd)
     = map_sum id (map (recommend_update (\<lambda>_. 0))) (encode_and_split jd)"
  unfolding encode_and_split_def encoder_pipeline_erase
  by (cases "encoder_pipeline jd") (simp_all add: comp_def with_keywords_array_erase)

lemma vectorize_keywords_erase:
  "vectorize_keywords (map (recommend_update (\<lambda>_. 0)) jd)
     = map_sum id (map (recommend_update (\<lambda>_. 0))) (vectorize_keywords jd)"
  by (simp add: vectorize_keywords_def Let_def comp_def split_record.defs vectorized_record.defs
      split: sum.splits)

lemma VectorAssembler_transform_erase:
  "VectorAssembler_transform (recommend_update (\<lambda>_. 0) r) = VectorAssembler_transform r"
  by (simp add: VectorAssembler_transform_def)

lemma feature_vectors_erase:
  "feature_vectors (map (recommend_update (\<lambda>_. 0)) jd) = feature_vectors jd"
proof (cases "encode_and_split jd")
  case (Inl e)
  then show ?thesis
    by (simp add: feature_vectors_def encode_and_split_erase)
next
  case (Inr sd)
  then show ?thesis
    by (cases "vectorize_keywords sd")
      (simp_all add: feature_vectors_def encode_and_split_erase vectorize_keywords_erase
        comp_def VectorAssembler_transform_erase)
qed

lemma feature_vectors_same_key:
  assumes "map rk_productId rs = map rk_productId rs'" and "map rk_date rs = map rk_date rs'"
  shows "feature_vectors (joined_rows rs kws) = feature_vectors (joined_rows rs' kws)"
proof -
  have "feature_vectors (joined_rows rs kws)
          = feature_vectors (map (recommend_update (\<lambda>_. 0)) (joined_rows rs kws))"
    by (simp only: feature_vectors_erase)
  also have "\<dots> = feature_vectors (map (recommend_update (\<lambda>_. 0)) (joined_rows rs' kws))"
    by (simp only: joined_rows_same_key[OF assms])
  also have "\<dots> = feature_vectors (joined_rows rs' kws)"
    by (simp only: feature_vectors_erase)
  finally show ?thesis .
qed

lemma feature_vectors_of_run:
  assumes "preprocess_data rs kws = Inr jd" and "vectorize_keywords jd = Inr vd"
  shows "feature_vectors (joined_rows rs kws) = Inr (map VectorAssembler_transform vd)"
  using assms by (simp add: feature_vectors_def preprocess_data_def)

lemma ranking_columns:
  "''ranking'' \<in> set rankings_columns_labelled"
  "rankings_columns_dropped = [''productId'', ''date'', ''recommend'']"
  "''ranking'' \<notin> set joined_data_columns"
  "''ranking'' \<notin> set vectorized_data_columns"
  "''ranking'' \<notin> set inputCols"
  "set inputCols \<subseteq> set vectorized_data_columns"
  by (simp_all add: rankings_columns_labelled_def rankings_columns_dropped_def
      joined_data_columns_def vectorized_data_columns_def inputCols_def withColumn_def
      drop_column_def join_columns_def product_rankings_columns_def product_keywords_columns_def)

text \<open>
  Claim C3. The column \<^verbatim>\<open>ranking\<close> is there when the label is computed and is dropped
  next, so that the table that is joined has the columns \<^verbatim>\<open>productId\<close>, \<^verbatim>\<open>date\<close> and
  \<^verbatim>\<open>recommend\<close>; it is no column of the joined or of the vectorized data and none of the
  input columns of the assembler, which are all columns of the vectorized data. The
  feature vectors of a run are those of its joined table, and two tables of rankings with
  the same product identifiers and dates, whatever their rankings, give the same feature
  vectors.
\<close>

theorem ranking_never_in_features:
  "''ranking'' \<in> set rankings_columns_labelled
   \<and> rankings_columns_dropped = [''productId'', ''date'', ''recommend'']
   \<and> ''ranking'' \<notin> set joined_data_columns
   \<and> ''ranking'' \<notin> set vectorized_data_columns
   \<and> ''ranking'' \<notin> set inputCols
   \<and> set inputCols \<subseteq> set vectorized_data_columns
   \<and> (preprocess_data rs kws = Inr jd \<and> vectorize_keywords jd = Inr vd \<longrightarrow>
        feature_vectors (joined_rows rs kws) = Inr (map VectorAssembler_transform vd))
   \<and> (map rk_productId rs = map rk_productId rs' \<and> map rk_date rs = map rk_date rs' \<longrightarrow>
        feature_vectors (joined_rows rs kws) = feature_vectors (joined_rows rs' kws))"
  using ranking_columns feature_vectors_of_run[of rs kws jd vd]
    feature_vectors_same_key[of rs rs' kws]
  by blast

lemma example_feature_vectors:
  "feature_vectors (joined_rows example_rankings example_keywords) =
     Inr [[0, 0, 1, 0, 10, 0, 0, 0, 0, 0, 0, 0, 3],
          [0, 1, 0, 1, 10, 0, 0, 0, 0, 0, 0, 0, 3],
          [1, 1, 1, 0, 10, 0, 0, 0, 0, 0, 0, 0, 3],
          [1, 1, 0, 0, 10, 0, 0, 0, 0, 0, 0, 0, 3],
          [1, 1, 1, 0, 10, 0, 0, 0, 0, 0, 0, 0, 3]]"
  by (simp add: feature_vectors_def VectorAssembler_transform_def pipeline_defs example_defs)

lemma example_labels:
  "map lb_recommend (product_rankings_labelled example_rankings) = [0, 1, 1, 1, 0, 1]"
  "map lb_recommend (product_rankings_labelled example_rankings_reranked) = [1, 0, 0, 0, 1, 0]"
  by (simp_all add: pipeline_defs example_defs)

theorem ranking_never_in_features_witness:
  "map rk_productId example_rankings = map rk_productId example_rankings_reranked
   \<and> map rk_date example_rankings = map rk_date example_rankings_reranked
   \<and> map lb_recommend (product_rankings_labelled example_rankings) = [0, 1, 1, 1, 0, 1]
   \<and> map lb_recommend (product_rankings_labelled example_rankings_reranked) = [1, 0, 0, 0, 1, 0]
   \<and> feature_vectors (joined_rows example_rankings_reranked example_keywords) =
       Inr [[0, 0, 1, 0, 10, 0, 0, 0, 0, 0, 0, 0, 3],
            [0, 1, 0, 1, 10, 0, 0, 0, 0, 0, 0, 0, 3],
            [1, 1, 1, 0, 10, 0, 0, 0, 0, 0, 0, 0, 3],
            [1, 1, 0, 0, 10, 0, 0, 0, 0, 0, 0, 0, 3],
            [1, 1, 1, 0, 10, 0, 0, 0, 0, 0, 0, 0, 3]]
   \<and> feature_vectors (joined_rows example_rankings example_keywords)
       = Inr (map VectorAssembler_transform example_vectorized_data)"
proof -
  have k: "map rk_productId example_rankings = map rk_productId example_rankings_reranked"
    "map rk_date example_rankings = map rk_date example_rankings_reranked"
    by (simp_all add: example_defs)
  note t = ranking_never_in_features[of example_rankings example_keywords example_joined_data
      example_vectorized_data example_rankings_reranked]
  from t k have "feature_vectors (joined_rows example_rankings example_keywords)
      = feature_vectors (joined_rows example_rankings_reranked example_keywords)"
    by blast
  moreover from t example_preprocess_data example_vectorize_keywords
  have "feature_vectors (joined_rows example_rankings example_keywords)
       = Inr (map VectorAssembler_transform example_vectorized_data)"
    by blast
  ultimately show ?thesis
    using k example_labels example_feature_vectors by simp
qed

end
